theory Spec2Isabelle
  imports Complex_Main "HOL-Library.Word" "HOL-Library.AList"
begin

section \<open>JavaScript values\<close>

text \<open>
  The server is a single JavaScript module. Its strings are sequences of UTF-16 code
  units, its numbers are doubles, and the values it receives from \<^verbatim>\<open>JSON.parse\<close> and
  from request bodies are JSON values. A finite double is a rational number, so a
  number is modelled as a rational or one of the three special values.
\<close>

type_synonym jschar = "16 word"
type_synonym jsstring = "jschar list"

definition js :: "string \<Rightarrow> jsstring" where
  "js s = map of_char s"

datatype jsnum = NaN | PosInf | NegInf | Fin rat

datatype json =
    JNull
  | JBool bool
  | JNum jsnum
  | JStr jsstring
  | JArr "json list"
  | JObj "(jsstring \<times> json) list"

text \<open>A thrown \<^verbatim>\<open>Error\<close>, identified by its message.\<close>

datatype js_error = Error jsstring

text \<open>
  Three built-in operations of the language are used by the module and are not part of
  it: \<^verbatim>\<open>JSON.parse\<close> (which throws a \<^verbatim>\<open>SyntaxError\<close> or returns a value), the
  conversion of a number to a string and the conversion of a string to a number. They are
  parameters of the model.
\<close>

record builtins =
  JSON_parse :: "jsstring \<Rightarrow> js_error + json"
  NumberToString :: "jsnum \<Rightarrow> jsstring"
  StringToNumber :: "jsstring \<Rightarrow> jsnum"

text \<open>Truthiness (\<^verbatim>\<open>!x\<close>, \<^verbatim>\<open>x && ...\<close>, \<^verbatim>\<open>x || ...\<close>) and \<^verbatim>\<open>typeof x === "object"\<close>.\<close>

fun truthy :: "json \<Rightarrow> bool" where
  "truthy JNull = False"
| "truthy (JBool b) = b"
| "truthy (JNum n) = (n \<noteq> NaN \<and> n \<noteq> Fin 0)"
| "truthy (JStr s) = (s \<noteq> [])"
| "truthy (JArr xs) = True"
| "truthy (JObj kvs) = True"

fun typeofObject :: "json \<Rightarrow> bool" where
  "typeofObject JNull = True"
| "typeofObject (JArr xs) = True"
| "typeofObject (JObj kvs) = True"
| "typeofObject v = False"

text \<open>
  \<^verbatim>\<open>!raw || typeof raw !== "object"\<close> lets through exactly the arrays and the objects;
  \<open>None\<close> is \<^verbatim>\<open>undefined\<close>.
\<close>

definition isObjectValue :: "json option \<Rightarrow> bool" where
  "isObjectValue v = (case v of None \<Rightarrow> False | Some x \<Rightarrow> truthy x \<and> typeofObject x)"

text \<open>
  Reading a property by a fixed name (\<^verbatim>\<open>raw.name\<close>, \<^verbatim>\<open>raw.stats.sense\<close>, \<^verbatim>\<open>q.id\<close>).
  None of the names the module reads is a property of \<^verbatim>\<open>Object.prototype\<close> or
  \<^verbatim>\<open>Array.prototype\<close>, so an array has none of them and an object has the ones it owns.
\<close>

fun getProp :: "json \<Rightarrow> jsstring \<Rightarrow> json option" where
  "getProp (JObj kvs) k = map_of kvs k"
| "getProp v k = None"

text \<open>String primitives: \<^verbatim>\<open>trim\<close>, \<^verbatim>\<open>slice\<close>, \<^verbatim>\<open>indexOf\<close>, \<^verbatim>\<open>lastIndexOf\<close>.\<close>

definition isWhiteSpace :: "jschar \<Rightarrow> bool" where
  "isWhiteSpace c = (c \<in> set [9, 10, 11, 12, 13, 32, 160, 5760, 8192, 8193, 8194, 8195,
     8196, 8197, 8198, 8199, 8200, 8201, 8202, 8232, 8233, 8239, 8287, 12288, 65279])"

definition trim :: "jsstring \<Rightarrow> jsstring" where
  "trim s = rev (dropWhile isWhiteSpace (rev (dropWhile isWhiteSpace s)))"

definition slice :: "jsstring \<Rightarrow> nat \<Rightarrow> nat \<Rightarrow> jsstring" where
  "slice s start fin = take (fin - start) (drop start s)"

fun findIndex :: "('a \<Rightarrow> bool) \<Rightarrow> 'a list \<Rightarrow> nat option" where
  "findIndex P [] = None"
| "findIndex P (x # xs) = (if P x then Some 0 else map_option Suc (findIndex P xs))"

definition indexOf :: "jsstring \<Rightarrow> jschar \<Rightarrow> nat option" where
  "indexOf s c = findIndex (\<lambda>x. x = c) s"

definition lastIndexOf :: "jsstring \<Rightarrow> jschar \<Rightarrow> nat option" where
  "lastIndexOf s c = map_option (\<lambda>k. length s - 1 - k) (findIndex (\<lambda>x. x = c) (rev s))"

text \<open>
  \<^verbatim>\<open>String(v)\<close> for a JSON value. An object that owns a \<^verbatim>\<open>toString\<close> property (never a
  function, in parsed JSON) cannot be converted: a \<^verbatim>\<open>TypeError\<close> is thrown. An array is
  joined with commas, \<^verbatim>\<open>null\<close> elements giving the empty string.
\<close>

definition typeError :: js_error where
  "typeError = Error (js ''Cannot convert object to primitive value'')"

fun joinComma :: "(js_error + jsstring) list \<Rightarrow> js_error + jsstring" where
  "joinComma [] = Inr []"
| "joinComma [x] = x"
| "joinComma (x # y # ys) =
     (case x of Inl e \<Rightarrow> Inl e
      | Inr s \<Rightarrow> (case joinComma (y # ys) of Inl e \<Rightarrow> Inl e | Inr t \<Rightarrow> Inr (s @ [44] @ t)))"

fun toStringJ :: "builtins \<Rightarrow> json \<Rightarrow> js_error + jsstring" where
  "toStringJ B JNull = Inr (js ''null'')"
| "toStringJ B (JBool b) = Inr (if b then js ''true'' else js ''false'')"
| "toStringJ B (JNum n) = Inr (NumberToString B n)"
| "toStringJ B (JStr s) = Inr s"
| "toStringJ B (JArr xs) =
     joinComma (map (\<lambda>x. case x of JNull \<Rightarrow> Inr [] | _ \<Rightarrow> toStringJ B x) xs)"
| "toStringJ B (JObj kvs) =
     (if map_of kvs (js ''toString'') \<noteq> None then Inl typeError
      else Inr (js ''[object Object]''))"

text \<open>\<^verbatim>\<open>Number(v)\<close>; \<open>None\<close> is \<^verbatim>\<open>undefined\<close>.\<close>

fun toNumber :: "builtins \<Rightarrow> json option \<Rightarrow> js_error + jsnum" where
  "toNumber B None = Inr NaN"
| "toNumber B (Some JNull) = Inr (Fin 0)"
| "toNumber B (Some (JBool b)) = Inr (Fin (if b then 1 else 0))"
| "toNumber B (Some (JNum n)) = Inr n"
| "toNumber B (Some (JStr s)) = Inr (StringToNumber B s)"
| "toNumber B (Some v) =
     (case toStringJ B v of Inl e \<Rightarrow> Inl e | Inr s \<Rightarrow> Inr (StringToNumber B s))"

text \<open>\<^verbatim>\<open>Number.isInteger\<close>, and the comparisons of a number with an integer literal.\<close>

fun isInteger :: "jsnum \<Rightarrow> bool" where
  "isInteger (Fin r) = (of_int \<lfloor>r\<rfloor> = r)"
| "isInteger n = False"

fun numLess :: "jsnum \<Rightarrow> rat \<Rightarrow> bool" where
  "numLess (Fin r) k = (r < k)"
| "numLess NegInf k = True"
| "numLess n k = False"

fun numGreater :: "jsnum \<Rightarrow> rat \<Rightarrow> bool" where
  "numGreater (Fin r) k = (r > k)"
| "numGreater PosInf k = True"
| "numGreater n k = False"

section \<open>The structured-content generator\<close>

text \<open>
  A function of the module either throws, returns \<^verbatim>\<open>null\<close> or returns a value: its result
  is \<open>Inl\<close> of the error, \<open>Inr None\<close> or \<open>Inr (Some v)\<close>.
\<close>

definition bindE :: "('e + 'a) \<Rightarrow> ('a \<Rightarrow> 'e + 'b) \<Rightarrow> 'e + 'b" where
  "bindE m f = (case m of Inl e \<Rightarrow> Inl e | Inr v \<Rightarrow> f v)"

text \<open>
  \<^verbatim>\<open>clampText(label, value, maxLen)\<close>: \<^verbatim>\<open>String(value ?? "").trim()\<close>, cut to \<open>maxLen\<close> code
  units. The label only goes to the log.
\<close>

definition clampText :: "builtins \<Rightarrow> json option \<Rightarrow> nat \<Rightarrow> js_error + jsstring" where
  "clampText B v maxLen =
     bindE (case v of None \<Rightarrow> Inr [] | Some JNull \<Rightarrow> Inr [] | Some x \<Rightarrow> toStringJ B x)
       (\<lambda>s. let str = trim s
             in Inr (if length str > maxLen then slice str 0 maxLen else str))"

record cardStats =
  sense :: jsnum
  logic :: jsnum
  luck :: jsnum
  charm :: jsnum
  vibe :: jsnum

text \<open>The card record; \<open>klass\<close> is its property \<^verbatim>\<open>class\<close>.\<close>

record cardData =
  name :: jsstring
  klass :: jsstring
  stats :: cardStats
  skill :: jsstring
  description :: jsstring

text \<open>The test of the loop over the five stats: \<^verbatim>\<open>!Number.isInteger(val) || val < 1 || val > 100\<close>.\<close>

definition invalidStat :: "jsnum \<Rightarrow> bool" where
  "invalidStat val = (\<not> isInteger val \<or> numLess val 1 \<or> numGreater val 100)"

definition normalizeCardData :: "builtins \<Rightarrow> json \<Rightarrow> js_error + cardData option" where
  "normalizeCardData B raw =
     (if \<not> isObjectValue (Some raw) then Inr None
      else
        bindE (clampText B (getProp raw (js ''name'')) 12) (\<lambda>nm.
        bindE (clampText B (getProp raw (js ''class'')) 15) (\<lambda>kl.
        bindE (clampText B (getProp raw (js ''skill'')) 20) (\<lambda>sk.
        bindE (clampText B (getProp raw (js ''description'')) 60) (\<lambda>ds.
        if nm = [] \<or> kl = [] \<or> sk = [] \<or> ds = [] then Inr None
        else if \<not> isObjectValue (getProp raw (js ''stats'')) then Inr None
        else (case getProp raw (js ''stats'') of
                None \<Rightarrow> Inr None
              | Some st \<Rightarrow>
                  bindE (toNumber B (getProp st (js ''sense''))) (\<lambda>v1.
                  bindE (toNumber B (getProp st (js ''logic''))) (\<lambda>v2.
                  bindE (toNumber B (getProp st (js ''luck''))) (\<lambda>v3.
                  bindE (toNumber B (getProp st (js ''charm''))) (\<lambda>v4.
                  bindE (toNumber B (getProp st (js ''vibe''))) (\<lambda>v5.
                  if list_ex invalidStat [v1, v2, v3, v4, v5] then Inr None
                  else Inr (Some \<lparr>name = nm, klass = kl,
                          stats = \<lparr>sense = v1, logic = v2, luck = v3, charm = v4, vibe = v5\<rparr>,
                          skill = sk, description = ds\<rparr>))))))))))))"

text \<open>A question \<^verbatim>\<open>{id, text}\<close> and the result \<^verbatim>\<open>{sessionId, questions}\<close> of \<^verbatim>\<open>normalizeQuestions\<close>.\<close>

record question =
  qid :: jsnum
  qtext :: jsstring

record questionSet =
  sessionId :: jsstring
  questions :: "question list"

text \<open>The callback of \<^verbatim>\<open>raw.questions.map\<close>.\<close>

definition normalizeQuestion :: "builtins \<Rightarrow> json \<Rightarrow> js_error + question option" where
  "normalizeQuestion B q =
     (if \<not> isObjectValue (Some q) then Inr None
      else
        bindE (toNumber B (getProp q (js ''id''))) (\<lambda>i.
        bindE (clampText B (getProp q (js ''text'')) 30) (\<lambda>t.
        if \<not> isInteger i \<or> numLess i 1 \<or> t = [] then Inr None
        else Inr (Some \<lparr>qid = i, qtext = t\<rparr>))))"

text \<open>\<^verbatim>\<open>Array.prototype.map\<close> with a callback that may throw: the first throw ends it.\<close>

fun mapE :: "('a \<Rightarrow> 'e + 'b) \<Rightarrow> 'a list \<Rightarrow> 'e + 'b list" where
  "mapE f [] = Inr []"
| "mapE f (x # xs) =
     (case f x of Inl e \<Rightarrow> Inl e
      | Inr y \<Rightarrow> (case mapE f xs of Inl e \<Rightarrow> Inl e | Inr ys \<Rightarrow> Inr (y # ys)))"

definition normalizeQuestions :: "builtins \<Rightarrow> json \<Rightarrow> js_error + questionSet option" where
  "normalizeQuestions B raw =
     (if \<not> isObjectValue (Some raw) then Inr None
      else (case getProp raw (js ''questions'') of
              Some (JArr qs) \<Rightarrow>
                if length qs < 4 \<or> length qs > 5 then Inr None
                else
                  bindE (clampText B (getProp raw (js ''session_id'')) 64) (\<lambda>sid.
                  if sid = [] then Inr None
                  else
                    bindE (mapE (normalizeQuestion B) qs) (\<lambda>normalized.
                    if list_ex (\<lambda>q. q = None) normalized then Inr None
                    else Inr (Some \<lparr>sessionId = sid, questions = map the normalized\<rparr>)))
            | _ \<Rightarrow> Inr None))"

text \<open>\<^verbatim>\<open>extractJsonObject\<close>; 123 and 125 are the braces.\<close>

definition extractJsonObject :: "builtins \<Rightarrow> jsstring \<Rightarrow> json option" where
  "extractJsonObject B t =
     (if t = [] then None
      else (case (indexOf t 123, lastIndexOf t 125) of
              (Some start, Some fin) \<Rightarrow>
                if fin \<le> start then None
                else (case JSON_parse B (slice t start (fin + 1)) of
                        Inl e \<Rightarrow> None
                      | Inr v \<Rightarrow> Some v)
            | _ \<Rightarrow> None))"

text \<open>
  One attempt of \<^verbatim>\<open>generateCardData\<close>, from the text the backend returned: the parse with
  its fallback, then the validation. \<^verbatim>\<open>generateCardData\<close> parses the text as returned and
  extracts from the trimmed text.
\<close>

definition parseCard :: "builtins \<Rightarrow> jsstring \<Rightarrow> js_error + json" where
  "parseCard B rawText =
     (let trimmedRaw = trim rawText
      in if trimmedRaw = [] then Inl (Error (js ''JSON parse failed: empty response''))
         else (case JSON_parse B rawText of
                 Inr parsed \<Rightarrow> Inr parsed
               | Inl (Error msg) \<Rightarrow>
                   (case extractJsonObject B trimmedRaw of
                      Some extracted \<Rightarrow>
                        if truthy extracted then Inr extracted
                        else Inl (Error (js ''JSON parse failed: '' @ msg))
                    | None \<Rightarrow> Inl (Error (js ''JSON parse failed: '' @ msg)))))"

definition validateCard :: "builtins \<Rightarrow> json \<Rightarrow> js_error + cardData" where
  "validateCard B parsed =
     (case normalizeCardData B parsed of
        Inl e \<Rightarrow> Inl e
      | Inr None \<Rightarrow> Inl (Error (js ''Schema validation failed''))
      | Inr (Some normalized) \<Rightarrow> Inr normalized)"

definition attemptCard :: "builtins \<Rightarrow> jsstring \<Rightarrow> js_error + cardData" where
  "attemptCard B rawText = bindE (parseCard B rawText) (validateCard B)"

text \<open>One attempt of \<^verbatim>\<open>generateQuestions\<close>; it parses the trimmed text.\<close>

definition parseQuestions :: "builtins \<Rightarrow> jsstring \<Rightarrow> js_error + json" where
  "parseQuestions B rawText =
     (let trimmedRaw = trim rawText
      in if trimmedRaw = [] then Inl (Error (js ''Question JSON parse failed: empty response''))
         else (case JSON_parse B trimmedRaw of
                 Inr parsed \<Rightarrow> Inr parsed
               | Inl (Error msg) \<Rightarrow>
                   (case extractJsonObject B trimmedRaw of
                      Some extracted \<Rightarrow>
                        if truthy extracted then Inr extracted
                        else Inl (Error (js ''Question JSON parse failed: '' @ msg))
                    | None \<Rightarrow> Inl (Error (js ''Question JSON parse failed: '' @ msg)))))"

definition validateQuestions :: "builtins \<Rightarrow> json \<Rightarrow> js_error + questionSet" where
  "validateQuestions B parsed =
     (case normalizeQuestions B parsed of
        Inl e \<Rightarrow> Inl e
      | Inr None \<Rightarrow> Inl (Error (js ''Question schema validation failed''))
      | Inr (Some normalized) \<Rightarrow> Inr normalized)"

definition attemptQuestions :: "builtins \<Rightarrow> jsstring \<Rightarrow> js_error + questionSet" where
  "attemptQuestions B rawText = bindE (parseQuestions B rawText) (validateQuestions B)"

text \<open>
  The retry loops. \<^verbatim>\<open>callOllamaChat\<close> is the network call: the \<open>n\<close>-th call made to the
  backend throws or returns a text, \<open>backend n\<close>. The state is the number of calls made so
  far; the loops return it with their result.
\<close>

type_synonym backend = "nat \<Rightarrow> js_error + jsstring"

function generateCardLoop ::
  "builtins \<Rightarrow> backend \<Rightarrow> nat \<Rightarrow> js_error option \<Rightarrow> nat \<Rightarrow> (js_error + cardData) \<times> nat" where
  "generateCardLoop B backend attempt lastError calls =
     (if attempt \<le> 3 then
        (case bindE (backend calls) (attemptCard B) of
           Inr normalized \<Rightarrow> (Inr normalized, Suc calls)
         | Inl err \<Rightarrow> generateCardLoop B backend (attempt + 1) (Some err) (Suc calls))
      else (Inl (case lastError of Some e \<Rightarrow> e | None \<Rightarrow> Error (js ''AI failed'')), calls))"
  by pat_completeness auto
termination
  by (relation "measure (\<lambda>(B, backend, attempt, lastError, calls). 4 - attempt)") auto

definition generateCardData :: "builtins \<Rightarrow> backend \<Rightarrow> nat \<Rightarrow> (js_error + cardData) \<times> nat" where
  "generateCardData B backend calls = generateCardLoop B backend 1 None calls"

function generateQuestionsLoop ::
  "builtins \<Rightarrow> backend \<Rightarrow> nat \<Rightarrow> js_error option \<Rightarrow> nat \<Rightarrow> (js_error + questionSet) \<times> nat" where
  "generateQuestionsLoop B backend attempt lastError calls =
     (if attempt \<le> 3 then
        (case bindE (backend calls) (attemptQuestions B) of
           Inr normalized \<Rightarrow> (Inr normalized, Suc calls)
         | Inl err \<Rightarrow> generateQuestionsLoop B backend (attempt + 1) (Some err) (Suc calls))
      else (Inl (case lastError of Some e \<Rightarrow> e
                 | None \<Rightarrow> Error (js ''Question generation failed'')), calls))"
  by pat_completeness auto
termination
  by (relation "measure (\<lambda>(B, backend, attempt, lastError, calls). 4 - attempt)") auto

definition generateQuestions :: "builtins \<Rightarrow> backend \<Rightarrow> nat \<Rightarrow> (js_error + questionSet) \<times> nat" where
  "generateQuestions B backend calls = generateQuestionsLoop B backend 1 None calls"

section \<open>The print queue\<close>

record config =
  PRINT_JOB_TTL_MS :: int
  PRINT_CLAIM_TTL_MS :: int
  INPUT_SESSION_TTL_MS :: int

definition defaultConfig :: config where
  "defaultConfig = \<lparr>PRINT_JOB_TTL_MS = 300000, PRINT_CLAIM_TTL_MS = 60000,
     INPUT_SESSION_TTL_MS = 600000\<rparr>"

definition MAX_FAILS :: nat where
  "MAX_FAILS = 3"

text \<open>
  A job of \<^verbatim>\<open>printQueue\<close>. Its identifier is the field \<^verbatim>\<open>id\<close> of the source; times are
  the milliseconds of \<^verbatim>\<open>Date.now()\<close>; \<open>None\<close> is \<^verbatim>\<open>null\<close>.
\<close>

record job =
  jid :: jsstring
  imageBase64 :: jsstring
  meta :: json
  createdAt :: int
  claimedAt :: "int option"
  claimedBy :: "jsstring option"
  failCount :: nat

text \<open>The truthiness of a nullable time stamp: \<^verbatim>\<open>null\<close> and \<^verbatim>\<open>0\<close> are falsy.\<close>

fun truthyTime :: "int option \<Rightarrow> bool" where
  "truthyTime None = False"
| "truthyTime (Some t) = (t \<noteq> 0)"

definition splice1 :: "'a list \<Rightarrow> nat \<Rightarrow> 'a list" where
  "splice1 xs i = take i xs @ drop (Suc i) xs"

text \<open>
  The two tests of the body of \<^verbatim>\<open>cleanupQueue\<close>'s loop: the claim is stale (the first
  \<^verbatim>\<open>if\<close>), the job is to be removed (the second).
\<close>

definition staleClaim :: "config \<Rightarrow> int \<Rightarrow> job \<Rightarrow> bool" where
  "staleClaim cfg now job =
     (case claimedAt job of None \<Rightarrow> False
      | Some t \<Rightarrow> t \<noteq> 0 \<and> now - t > PRINT_CLAIM_TTL_MS cfg)"

definition expiredJob :: "config \<Rightarrow> int \<Rightarrow> job \<Rightarrow> bool" where
  "expiredJob cfg now job =
     (now - createdAt job > PRINT_JOB_TTL_MS cfg \<or> failCount job \<ge> MAX_FAILS)"

definition releaseClaim :: "config \<Rightarrow> int \<Rightarrow> job \<Rightarrow> job" where
  "releaseClaim cfg now job =
     (if staleClaim cfg now job then job\<lparr>claimedAt := None, claimedBy := None\<rparr> else job)"

text \<open>
  \<^verbatim>\<open>cleanupQueue\<close>: the loop runs the index from \<^verbatim>\<open>printQueue.length - 1\<close> down to 0; the
  argument \<open>Suc i\<close> stands for the iteration at index \<open>i\<close>. The index is within the
  queue at every iteration, since a splice at \<open>i\<close> only moves the jobs behind it.
\<close>

fun cleanupLoop :: "config \<Rightarrow> int \<Rightarrow> nat \<Rightarrow> job list \<times> bool \<Rightarrow> job list \<times> bool" where
  "cleanupLoop cfg now 0 (q, changed) = (q, changed)"
| "cleanupLoop cfg now (Suc i) (q, changed) =
     (let job = q ! i;
          job1 = releaseClaim cfg now job;
          q1 = q[i := job1];
          changed1 = (changed \<or> staleClaim cfg now job)
      in if expiredJob cfg now job1
         then cleanupLoop cfg now i (splice1 q1 i, True)
         else cleanupLoop cfg now i (q1, changed1))"

definition cleanupQueue :: "config \<Rightarrow> int \<Rightarrow> job list \<Rightarrow> job list \<times> bool" where
  "cleanupQueue cfg now q = cleanupLoop cfg now (length q) (q, False)"

definition pendingCount :: "job list \<Rightarrow> nat" where
  "pendingCount q = length (filter (\<lambda>job. \<not> truthyTime (claimedAt job)) q)"

text \<open>\<^verbatim>\<open>enqueuePrintJob\<close>; the fresh identifier of \<^verbatim>\<open>uuidv4()\<close> and the clock are arguments.\<close>

definition enqueuePrintJob ::
  "jsstring \<Rightarrow> int \<Rightarrow> jsstring \<Rightarrow> json \<Rightarrow> job list \<Rightarrow> jsstring \<times> job list" where
  "enqueuePrintJob jobId now img m q =
     (jobId, q @ [\<lparr>jid = jobId, imageBase64 = img, meta = m, createdAt = now,
                   claimedAt = None, claimedBy = None, failCount = 0\<rparr>])"

text \<open>
  \<^verbatim>\<open>GET /api/print/next\<close>. The clock is read twice: by the clean-up (\<open>tgc\<close>) and when the
  claim is written (\<open>tclaim\<close>). The query parameter \<^verbatim>\<open>clientId\<close> is absent or a string.
\<close>

datatype next_response = NoContent | NextJob jsstring jsstring json

definition queryClientId :: "jsstring option \<Rightarrow> jsstring" where
  "queryClientId c = (case c of None \<Rightarrow> js ''unknown''
                      | Some s \<Rightarrow> if s = [] then js ''unknown'' else s)"

definition claimNext ::
  "config \<Rightarrow> int \<Rightarrow> int \<Rightarrow> jsstring option \<Rightarrow> job list \<Rightarrow> next_response \<times> job list" where
  "claimNext cfg tgc tclaim rawClientId q =
     (let q1 = fst (cleanupQueue cfg tgc q);
          clientId = queryClientId rawClientId
      in case findIndex (\<lambda>job. \<not> truthyTime (claimedAt job)) q1 of
           None \<Rightarrow> (NoContent, q1)
         | Some i \<Rightarrow>
             (let nextJob = (q1 ! i)\<lparr>claimedAt := Some tclaim, claimedBy := Some clientId\<rparr>
              in (NextJob (jid nextJob) (imageBase64 nextJob)
                    (if truthy (meta nextJob) then meta nextJob else JObj []),
                  q1[i := nextJob])))"

text \<open>
  \<^verbatim>\<open>POST /api/print/:jobId/done\<close>. The status is \<^verbatim>\<open>req.body?.status\<close>, any JSON value or
  \<^verbatim>\<open>undefined\<close>; it is compared with \<^verbatim>\<open>===\<close>.
\<close>

datatype done_response = DoneOk | NotFound | InvalidStatus

definition reportOutcome ::
  "jsstring \<Rightarrow> json option \<Rightarrow> job list \<Rightarrow> done_response \<times> job list" where
  "reportOutcome jobId status q =
     (case findIndex (\<lambda>job. jid job = jobId) q of
        None \<Rightarrow> (NotFound, q)
      | Some jobIndex \<Rightarrow>
          if status = Some (JStr (js ''printed'')) then (DoneOk, splice1 q jobIndex)
          else if status = Some (JStr (js ''failed'')) then
            (let job1 = (q ! jobIndex)\<lparr>failCount := failCount (q ! jobIndex) + 1,
                                       claimedAt := None, claimedBy := None\<rparr>;
                 q1 = q[jobIndex := job1]
             in if failCount job1 \<ge> MAX_FAILS then (DoneOk, splice1 q1 jobIndex)
                else (DoneOk, q1))
          else (InvalidStatus, q))"

text \<open>
  The operations that touch \<^verbatim>\<open>printQueue\<close>: the three request handlers and the timer
  (\<^verbatim>\<open>setInterval\<close>), as the steps of a state machine on the queue.
\<close>

datatype queue_op =
    Enqueue jsstring int jsstring json
  | ClaimNext int int "jsstring option"
  | ReportOutcome jsstring "json option"
  | CleanupTimer int

fun applyOp :: "config \<Rightarrow> queue_op \<Rightarrow> job list \<Rightarrow> job list" where
  "applyOp cfg (Enqueue jobId now img m) q = snd (enqueuePrintJob jobId now img m q)"
| "applyOp cfg (ClaimNext tgc tclaim c) q = snd (claimNext cfg tgc tclaim c q)"
| "applyOp cfg (ReportOutcome jobId status) q = snd (reportOutcome jobId status q)"
| "applyOp cfg (CleanupTimer now) q = fst (cleanupQueue cfg now q)"

text \<open>The identifier of \<^verbatim>\<open>uuidv4()\<close> is fresh: no job of the queue has it.\<close>

fun freshOp :: "queue_op \<Rightarrow> job list \<Rightarrow> bool" where
  "freshOp (Enqueue jobId now img m) q = (jobId \<notin> set (map jid q))"
| "freshOp opn q = True"

section \<open>The input sessions\<close>

text \<open>
  A session of \<^verbatim>\<open>inputSessions\<close>: the question set it was created from, its token, the
  time of its creation (the field \<^verbatim>\<open>createdAt\<close> of the source), and the two fields
  written by the answer (\<open>sessionKeywords\<close> is the field \<^verbatim>\<open>keywords\<close> of the source). The store is the \<^verbatim>\<open>Map\<close>, as the list of its entries in the
  order of insertion.
\<close>

record inputSession = questionSet +
  token :: jsstring
  sessionCreatedAt :: int
  answeredAt :: "int option"
  sessionKeywords :: "jsstring list option"

type_synonym sessionStore = "(jsstring \<times> inputSession) list"

text \<open>The body of \<^verbatim>\<open>POST /api/input/session\<close> after the questions were generated.\<close>

definition createInputSession ::
  "jsstring \<Rightarrow> int \<Rightarrow> questionSet \<Rightarrow> sessionStore \<Rightarrow> sessionStore" where
  "createInputSession tok now payload store =
     AList.update tok
       \<lparr>sessionId = sessionId payload, questions = questions payload, token = tok,
        sessionCreatedAt = now, answeredAt = None, sessionKeywords = None\<rparr> store"

definition getInputSession ::
  "config \<Rightarrow> int \<Rightarrow> jsstring \<Rightarrow> sessionStore \<Rightarrow> inputSession option \<times> sessionStore" where
  "getInputSession cfg now tok store =
     (case map_of store tok of
        None \<Rightarrow> (None, store)
      | Some session \<Rightarrow>
          if now - sessionCreatedAt session > INPUT_SESSION_TTL_MS cfg
          then (None, AList.delete tok store)
          else (Some session, store))"

text \<open>
  \<^verbatim>\<open>cleanupInputSessions\<close>: the loop over the entries of the map, deleting as it goes;
  it returns the number of sessions removed.
\<close>

fun cleanupSessionsLoop ::
  "config \<Rightarrow> int \<Rightarrow> (jsstring \<times> inputSession) list \<Rightarrow> sessionStore \<times> nat \<Rightarrow> sessionStore \<times> nat" where
  "cleanupSessionsLoop cfg now [] (store, removed) = (store, removed)"
| "cleanupSessionsLoop cfg now ((tok, session) # entries) (store, removed) =
     (if now - sessionCreatedAt session > INPUT_SESSION_TTL_MS cfg
      then cleanupSessionsLoop cfg now entries (AList.delete tok store, removed + 1)
      else cleanupSessionsLoop cfg now entries (store, removed))"

definition cleanupInputSessions :: "config \<Rightarrow> int \<Rightarrow> sessionStore \<Rightarrow> sessionStore \<times> nat" where
  "cleanupInputSessions cfg now store = cleanupSessionsLoop cfg now store (store, 0)"

text \<open>
  \<^verbatim>\<open>rawAnswers[q.id]\<close>: the property of an object whose key is the number as a string, or
  the element of an array at that index. (\<^verbatim>\<open>rawAnswers[String(q.id)]\<close> reads the same
  property, so the operator \<^verbatim>\<open>??\<close> changes nothing.)
\<close>

fun getIndexed :: "builtins \<Rightarrow> json \<Rightarrow> jsnum \<Rightarrow> json option" where
  "getIndexed B (JObj kvs) n = map_of kvs (NumberToString B n)"
| "getIndexed B (JArr xs) (Fin r) =
     (if of_int \<lfloor>r\<rfloor> = r \<and> 0 \<le> r \<and> \<lfloor>r\<rfloor> < int (length xs) then Some (xs ! nat \<lfloor>r\<rfloor>) else None)"
| "getIndexed B v n = None"

text \<open>
  \<^verbatim>\<open>normalizeInputAnswers\<close>. The object \<^verbatim>\<open>answers\<close> it builds is keyed by the question
  identifiers.
\<close>

fun answersLoop ::
  "builtins \<Rightarrow> json \<Rightarrow> question list \<Rightarrow> (jsnum \<times> jsstring) list \<Rightarrow>
   js_error + (jsnum \<times> jsstring) list option" where
  "answersLoop B rawAnswers [] answers = Inr (Some answers)"
| "answersLoop B rawAnswers (q # qs) answers =
     (case clampText B (getIndexed B rawAnswers (qid q)) 200 of
        Inl e \<Rightarrow> Inl e
      | Inr t \<Rightarrow>
          if t = [] then Inr None
          else answersLoop B rawAnswers qs (AList.update (qid q) t answers))"

definition normalizeInputAnswers ::
  "builtins \<Rightarrow> inputSession \<Rightarrow> json option \<Rightarrow>
   js_error + (jsstring \<times> (jsnum \<times> jsstring) list) option" where
  "normalizeInputAnswers B session payload =
     (if \<not> isObjectValue payload then Inr None
      else (case payload of
              None \<Rightarrow> Inr None
            | Some p \<Rightarrow>
                bindE (clampText B (getProp p (js ''name'')) 12) (\<lambda>nm.
                if nm = [] then Inr None
                else if \<not> isObjectValue (getProp p (js ''answers'')) then Inr None
                else (case getProp p (js ''answers'') of
                        None \<Rightarrow> Inr None
                      | Some rawAnswers \<Rightarrow>
                          bindE (answersLoop B rawAnswers (questions session) []) (\<lambda>r.
                          case r of None \<Rightarrow> Inr None
                          | Some answers \<Rightarrow> Inr (Some (nm, answers)))))))"

text \<open>
  \<^verbatim>\<open>POST /api/input/session/:token/answers\<close>. The clock is read by \<^verbatim>\<open>getInputSession\<close>
  (\<open>now\<close>) and when the answer is recorded (\<open>now2\<close>). An exception that leaves the
  handler is answered by the framework with a server error.
\<close>

datatype answers_response =
  AnswersOk | SessionNotFound | AlreadyUsed | InvalidInput | ServerError js_error

definition answerKeywords ::
  "builtins \<Rightarrow> inputSession \<Rightarrow> jsstring \<Rightarrow> (jsnum \<times> jsstring) list \<Rightarrow> jsstring list" where
  "answerKeywords B session nm answers =
     filter (\<lambda>k. k \<noteq> [])
       ([js ''session:'' @ sessionId session, js ''name:'' @ nm] @
        map (\<lambda>q. trim (js ''q'' @ NumberToString B (qid q) @ js '':'' @
                 (case map_of answers (qid q) of Some t \<Rightarrow> t | None \<Rightarrow> js ''undefined'')))
          (questions session))"

definition submitAnswers ::
  "builtins \<Rightarrow> config \<Rightarrow> int \<Rightarrow> int \<Rightarrow> jsstring \<Rightarrow> json option \<Rightarrow> sessionStore \<Rightarrow>
   answers_response \<times> sessionStore" where
  "submitAnswers B cfg now now2 tok body store =
     (case getInputSession cfg now tok store of
        (None, store1) \<Rightarrow> (SessionNotFound, store1)
      | (Some session, store1) \<Rightarrow>
          if truthyTime (answeredAt session) then (AlreadyUsed, store1)
          else (case normalizeInputAnswers B session body of
                  Inl e \<Rightarrow> (ServerError e, store1)
                | Inr None \<Rightarrow> (InvalidInput, store1)
                | Inr (Some (nm, answers)) \<Rightarrow>
                    (let kws = answerKeywords B session nm answers
                     in if length kws = 0 then (InvalidInput, store1)
                        else (AnswersOk,
                              AList.update tok
                                (session\<lparr>answeredAt := Some now2, sessionKeywords := Some kws\<rparr>)
                                store1))))"

text \<open>A job with a fixed payload, for the worked examples below.\<close>

definition exampleJob :: "string \<Rightarrow> int \<Rightarrow> int option \<Rightarrow> string option \<Rightarrow> nat \<Rightarrow> job" where
  "exampleJob i created ct cb fails =
     \<lparr>jid = js i, imageBase64 = js ''png'', meta = JObj [], createdAt = created,
      claimedAt = ct, claimedBy = map_option js cb, failCount = fails\<rparr>"

text \<open>A session with two questions, for the worked examples below.\<close>

definition exampleSession :: "string \<Rightarrow> int \<Rightarrow> int option \<Rightarrow> inputSession" where
  "exampleSession tok created answered =
     \<lparr>sessionId = js ''batch'', questions = [\<lparr>qid = Fin 1, qtext = js ''Tea or coffee?''\<rparr>,
        \<lparr>qid = Fin 2, qtext = js ''Stairs or lift?''\<rparr>],
      token = js tok, sessionCreatedAt = created, answeredAt = answered,
      sessionKeywords = None\<rparr>"

definition exampleCardText :: jsstring where
  \<open>exampleCardText = js ''{"name":"Nova","class":"Echo Rider","stats":{"sense":80,"logic":72,"luck":40,"charm":65,"vibe":91},"skill":"Photon Step","description":"Reads the room and moves first."}''\<close>

definition exampleCardJson :: json where
  "exampleCardJson = JObj [(js ''name'', JStr (js ''Nova'')), (js ''class'', JStr (js ''Echo Rider'')),
     (js ''stats'', JObj [(js ''sense'', JNum (Fin 80)), (js ''logic'', JNum (Fin 72)),
        (js ''luck'', JNum (Fin 40)), (js ''charm'', JNum (Fin 65)), (js ''vibe'', JNum (Fin 91))]),
     (js ''skill'', JStr (js ''Photon Step'')),
     (js ''description'', JStr (js ''Reads the room and moves first.''))]"

definition exampleCard :: cardData where
  "exampleCard = \<lparr>name = js ''Nova'', klass = js ''Echo Rider'',
     stats = \<lparr>sense = Fin 80, logic = Fin 72, luck = Fin 40, charm = Fin 65, vibe = Fin 91\<rparr>,
     skill = js ''Photon Step'', description = js ''Reads the room and moves first.''\<rparr>"

definition exampleQuestionsText :: jsstring where
  \<open>exampleQuestionsText = js ''{"session_id":"s-1","questions":[{"id":1,"text":"Tea or coffee?"},{"id":2,"text":"Stairs or lift?"},{"id":3,"text":"Map or instinct?"},{"id":4,"text":"Early or late?"}]}''\<close>

definition exampleQuestionsJson :: json where
  "exampleQuestionsJson = JObj [(js ''session_id'', JStr (js ''s-1'')),
     (js ''questions'', JArr [
        JObj [(js ''id'', JNum (Fin 1)), (js ''text'', JStr (js ''Tea or coffee?''))],
        JObj [(js ''id'', JNum (Fin 2)), (js ''text'', JStr (js ''Stairs or lift?''))],
        JObj [(js ''id'', JNum (Fin 3)), (js ''text'', JStr (js ''Map or instinct?''))],
        JObj [(js ''id'', JNum (Fin 4)), (js ''text'', JStr (js ''Early or late?''))]])]"

definition exampleQuestionSet :: questionSet where
  "exampleQuestionSet = \<lparr>sessionId = js ''s-1'', questions =
     [\<lparr>qid = Fin 1, qtext = js ''Tea or coffee?''\<rparr>, \<lparr>qid = Fin 2, qtext = js ''Stairs or lift?''\<rparr>,
      \<lparr>qid = Fin 3, qtext = js ''Map or instinct?''\<rparr>, \<lparr>qid = Fin 4, qtext = js ''Early or late?''\<rparr>]\<rparr>"

definition exampleBuiltins :: builtins where
  "exampleBuiltins =
     \<lparr>JSON_parse = (\<lambda>t. if t = exampleCardText then Inr exampleCardJson
                       else if t = exampleQuestionsText then Inr exampleQuestionsJson
                       else Inl (Error (js ''Unexpected token''))),
      NumberToString = (\<lambda>n. if n = Fin 1 then js ''1'' else if n = Fin 2 then js ''2''
                       else if n = Fin 3 then js ''3'' else if n = Fin 4 then js ''4''
                       else js ''5''),
      StringToNumber = (\<lambda>s. if s = js ''50'' then Fin 50 else NaN)\<rparr>"

definition exampleBackendFailing :: backend where
  "exampleBackendFailing n =
     (if n = 0 then Inl (Error (js ''Ollama error 500: ''))
      else if n = 1 then Inr (js ''  '')
      else Inr (js ''sorry, no json''))"

definition exampleBackendRecovering :: backend where
  "exampleBackendRecovering n =
     (if n = 0 then Inl (Error (js ''Ollama error 500: ''))
      else if n = 1 then Inr exampleCardText
      else Inr (js ''sorry, no json''))"

definition exampleCardJsonStats :: "(jsstring \<times> json) list \<Rightarrow> json" where
  "exampleCardJsonStats kvs = JObj [(js ''name'', JStr (js ''Nova'')), (js ''class'', JStr (js ''Echo Rider'')),
     (js ''stats'', JObj kvs), (js ''skill'', JStr (js ''Photon Step'')),
     (js ''description'', JStr (js ''Reads the room and moves first.''))]"

definition statKeys :: "jsstring list" where
  "statKeys = [js ''sense'', js ''logic'', js ''luck'', js ''charm'', js ''vibe'']"

definition exampleOtherStats :: "(jsstring \<times> json) list" where
  "exampleOtherStats = [(js ''logic'', JNum (Fin 72)), (js ''luck'', JNum (Fin 40)),
     (js ''charm'', JNum (Fin 65)), (js ''vibe'', JNum (Fin 91))]"









section \<open>Properties of the print queue\<close>

lemma findIndex_Some:
  "findIndex P xs = Some i \<Longrightarrow> i < length xs \<and> P (xs ! i) \<and> (\<forall>k<i. \<not> P (xs ! k))"
proof (induction xs arbitrary: i)
  case Nil
  then show ?case by simp
next
  case (Cons x xs)
  show ?case
  proof (cases "P x")
    case True
    with Cons.prems show ?thesis by simp
  next
    case False
    with Cons.prems obtain j where j: "findIndex P xs = Some j" "i = Suc j"
      by auto
    from Cons.IH [OF j(1)] False j(2) show ?thesis
      by (auto simp: less_Suc_eq_0_disj)
  qed
qed

lemma findIndex_None: "findIndex P xs = None \<longleftrightarrow> (\<forall>x\<in>set xs. \<not> P x)"
  by (induction xs) auto

lemma expiredJob_releaseClaim: "expiredJob cfg now (releaseClaim cfg now j) = expiredJob cfg now j"
  by (simp add: expiredJob_def releaseClaim_def)

lemma cleanupLoop_fst:
  "i \<le> length q \<Longrightarrow>
   fst (cleanupLoop cfg now i (q, ch)) =
     map (releaseClaim cfg now) (filter (\<lambda>j. \<not> expiredJob cfg now j) (take i q)) @ drop i q"
proof (induction i arbitrary: q ch)
  case 0
  then show ?case by simp
next
  case (Suc i)
  let ?j = "q ! i"
  let ?q1 = "q[i := releaseClaim cfg now ?j]"
  from Suc.prems have i: "i < length q" by simp
  have tk: "take (Suc i) q = take i q @ [?j]"
    using i by (simp add: take_Suc_conv_app_nth)
  show ?case
  proof (cases "expiredJob cfg now ?j")
    case True
    have len: "i \<le> length (splice1 ?q1 i)"
      using i by (simp add: splice1_def)
    have a: "take i (splice1 ?q1 i) = take i q"
      using i by (simp add: splice1_def)
    have b: "drop i (splice1 ?q1 i) = drop (Suc i) q"
      using i by (simp add: splice1_def)
    show ?thesis
      using True Suc.IH [OF len, of True] a b tk
      by (simp add: Let_def expiredJob_releaseClaim)
  next
    case False
    have len: "i \<le> length ?q1" using i by simp
    have a: "take i ?q1 = take i q" by simp
    have b: "drop i ?q1 = releaseClaim cfg now ?j # drop (Suc i) q"
      using i by (simp add: drop_update_cancel Cons_nth_drop_Suc [symmetric] upd_conv_take_nth_drop)
    show ?thesis
      using False Suc.IH [OF len, of "ch \<or> staleClaim cfg now ?j"] a b tk
      by (simp add: Let_def expiredJob_releaseClaim)
  qed
qed

lemma cleanupQueue_fst:
  "fst (cleanupQueue cfg now q) =
     map (releaseClaim cfg now) (filter (\<lambda>j. \<not> expiredJob cfg now j) q)"
  by (simp add: cleanupQueue_def cleanupLoop_fst)

lemma findIndex_append:
  "(\<forall>x\<in>set pre. \<not> P x) \<Longrightarrow> P j \<Longrightarrow> findIndex P (pre @ j # post) = Some (length pre)"
  by (induction pre) auto



lemma jid_releaseClaim: "jid (releaseClaim cfg now j) = jid j"
  by (simp add: releaseClaim_def)

lemma failCount_releaseClaim: "failCount (releaseClaim cfg now j) = failCount j"
  by (simp add: releaseClaim_def)

lemma set_splice1: "set (splice1 xs i) \<subseteq> set xs"
  by (auto simp: splice1_def dest: in_set_takeD in_set_dropD)

lemma cleanup_origin:
  assumes "j' \<in> set (fst (cleanupQueue cfg now q))"
  shows "\<exists>j\<in>set q. jid j = jid j' \<and> failCount j \<le> failCount j'"
  using assms by (auto simp: cleanupQueue_fst jid_releaseClaim failCount_releaseClaim)

lemma claimNext_origin:
  assumes "j' \<in> set (snd (claimNext cfg tgc tclaim c q))"
  shows "\<exists>j\<in>set q. jid j = jid j' \<and> failCount j \<le> failCount j'"
proof -
  let ?q1 = "fst (cleanupQueue cfg tgc q)"
  have "\<exists>j\<in>set ?q1. jid j = jid j' \<and> failCount j \<le> failCount j'"
  proof (cases "findIndex (\<lambda>job. \<not> truthyTime (claimedAt job)) ?q1")
    case None
    with assms show ?thesis by (auto simp: claimNext_def Let_def)
  next
    case (Some i)
    then have i: "i < length ?q1" by (auto dest: findIndex_Some)
    from assms Some have "j' \<in> set (?q1[i := (?q1 ! i)\<lparr>claimedAt := Some tclaim,
        claimedBy := Some (queryClientId c)\<rparr>])"
      by (simp add: claimNext_def Let_def)
    then have "j' \<in> set ?q1 \<or> j' = (?q1 ! i)\<lparr>claimedAt := Some tclaim,
        claimedBy := Some (queryClientId c)\<rparr>"
      using set_update_subset_insert by fastforce
    then show ?thesis
    proof
      assume "j' \<in> set ?q1"
      then show ?thesis by auto
    next
      assume "j' = (?q1 ! i)\<lparr>claimedAt := Some tclaim, claimedBy := Some (queryClientId c)\<rparr>"
      with i show ?thesis by (intro bexI [of _ "?q1 ! i"]) auto
    qed
  qed
  then obtain j1 where j1: "j1 \<in> set ?q1" "jid j1 = jid j'" "failCount j1 \<le> failCount j'"
    by blast
  from cleanup_origin [OF j1(1)] j1(2,3) show ?thesis
    by (metis le_trans)
qed

lemma reportOutcome_origin:
  assumes "j' \<in> set (snd (reportOutcome jobId status q))"
  shows "\<exists>j\<in>set q. jid j = jid j' \<and> failCount j \<le> failCount j'"
proof (cases "findIndex (\<lambda>job. jid job = jobId) q")
  case None
  with assms show ?thesis by (auto simp: reportOutcome_def)
next
  case (Some i)
  then have i: "i < length q" by (auto dest: findIndex_Some)
  let ?j1 = "(q ! i)\<lparr>failCount := failCount (q ! i) + 1, claimedAt := None, claimedBy := None\<rparr>"
  have "j' \<in> set q \<or> j' = ?j1"
  proof -
    have "set (splice1 (q[i := ?j1]) i) \<subseteq> insert ?j1 (set q)"
      using set_splice1 set_update_subset_insert by fastforce
    moreover have "set (q[i := ?j1]) \<subseteq> insert ?j1 (set q)"
      by (rule set_update_subset_insert)
    moreover have "set (splice1 q i) \<subseteq> set q" by (rule set_splice1)
    ultimately show ?thesis
      using assms Some by (auto simp: reportOutcome_def Let_def split: if_splits)
  qed
  then show ?thesis
  proof
    assume "j' \<in> set q"
    then show ?thesis by auto
  next
    assume "j' = ?j1"
    with i show ?thesis by (intro bexI [of _ "q ! i"]) auto
  qed
qed

lemma applyOp_origin:
  assumes "j' \<in> set (applyOp cfg opn q)"
  shows "(\<exists>j\<in>set q. jid j = jid j' \<and> failCount j \<le> failCount j') \<or>
         (\<exists>jobId now img m. opn = Enqueue jobId now img m \<and> jid j' = jobId)"
proof (cases opn)
  case (Enqueue jobId now img m)
  with assms show ?thesis by (auto simp: enqueuePrintJob_def)
next
  case (ClaimNext tgc tclaim c)
  with assms claimNext_origin show ?thesis by simp
next
  case (ReportOutcome jobId status)
  with assms reportOutcome_origin show ?thesis by simp
next
  case (CleanupTimer now)
  with assms cleanup_origin show ?thesis by simp
qed

lemma failCount_never_decreases:
  assumes d: "distinct (map jid q)" and f: "freshOp opn q"
    and j: "j \<in> set q" and j': "j' \<in> set (applyOp cfg opn q)" and e: "jid j = jid j'"
  shows "failCount j \<le> failCount j'"
proof -
  from applyOp_origin [OF j'] show ?thesis
  proof
    assume "\<exists>j0\<in>set q. jid j0 = jid j' \<and> failCount j0 \<le> failCount j'"
    then obtain j0 where j0: "j0 \<in> set q" "jid j0 = jid j'" "failCount j0 \<le> failCount j'"
      by blast
    from d have "inj_on jid (set q)" by (simp add: distinct_map)
    with j j0(1,2) e have "j0 = j" by (metis inj_onD)
    with j0(3) show ?thesis by simp
  next
    assume "\<exists>jobId now img m. opn = Enqueue jobId now img m \<and> jid j' = jobId"
    then obtain jobId now img m where o: "opn = Enqueue jobId now img m" "jid j' = jobId"
      by blast
    with f have "jid j' \<notin> jid ` set q" by simp
    with j e have False by (metis imageI)
    then show ?thesis ..
  qed
qed

lemma reportOutcome_notfound:
  assumes "\<forall>x\<in>set q. jid x \<noteq> jobId"
  shows "reportOutcome jobId status q = (NotFound, q)"
proof -
  have "findIndex (\<lambda>job. jid job = jobId) q = None"
    using assms by (simp add: findIndex_None)
  then show ?thesis by (simp add: reportOutcome_def)
qed

lemma js_printed_failed: "js ''failed'' \<noteq> js ''printed''"
  by (simp add: js_def)

lemma splice1_middle: "splice1 (pre @ x # post) (length pre) = pre @ post"
  by (simp add: splice1_def)

lemma reportOutcome_at:
  assumes "\<forall>x\<in>set pre. jid x \<noteq> jid j"
  shows "reportOutcome (jid j) status (pre @ j # post) =
    (if status = Some (JStr (js ''printed'')) then (DoneOk, pre @ post)
     else if status = Some (JStr (js ''failed'')) then
       (DoneOk, if failCount j + 1 \<ge> MAX_FAILS then pre @ post
                else pre @ j\<lparr>failCount := failCount j + 1, claimedAt := None,
                             claimedBy := None\<rparr> # post)
     else (InvalidStatus, pre @ j # post))"
proof -
  have fi: "findIndex (\<lambda>job. jid job = jid j) (pre @ j # post) = Some (length pre)"
    using assms by (intro findIndex_append) auto
  have nth: "(pre @ j # post) ! length pre = j" by simp
  have upd: "\<And>x. (pre @ j # post)[length pre := x] = pre @ x # post" by simp
  show ?thesis
    unfolding reportOutcome_def fi option.case Let_def nth upd splice1_middle
    by simp
qed

lemma distinct_split_first:
  assumes "distinct (map jid q)" "j \<in> set q"
  shows "\<exists>pre post. q = pre @ j # post \<and> (\<forall>x\<in>set pre. jid x \<noteq> jid j)
          \<and> (\<forall>x\<in>set post. jid x \<noteq> jid j)"
proof -
  from assms(2) obtain pre post where q: "q = pre @ j # post"
    by (auto dest: split_list)
  from assms(1) have "jid j \<notin> jid ` set pre" "jid j \<notin> jid ` set post"
    unfolding q by simp_all
  then have "(\<forall>x\<in>set pre. jid x \<noteq> jid j) \<and> (\<forall>x\<in>set post. jid x \<noteq> jid j)"
    by (metis imageI)
  with q show ?thesis by blast
qed


text \<open>
  Claim C2. A report for an identifier that no job of the queue has answers NOT_FOUND and
  leaves the queue as it is. For the first job with the identifier: \<^verbatim>\<open>printed\<close> removes
  it; \<^verbatim>\<open>failed\<close> adds one to its \<open>failCount\<close> and clears its claim, or removes the job when
  the new count reaches \<open>MAX_FAILS = 3\<close>; any other status answers INVALID_STATUS and
  leaves the queue as it is. When identifiers are unique, no job with the identifier is
  left after \<^verbatim>\<open>printed\<close>.
\<close>

theorem reportOutcome_outcomes:
  "MAX_FAILS = 3 \<and>
   ((\<forall>x\<in>set q. jid x \<noteq> jobId) \<longrightarrow> reportOutcome jobId status q = (NotFound, q)) \<and>
   ((\<forall>x\<in>set pre. jid x \<noteq> jid j) \<longrightarrow>
      reportOutcome (jid j) (Some (JStr (js ''printed''))) (pre @ j # post) = (DoneOk, pre @ post) \<and>
      reportOutcome (jid j) (Some (JStr (js ''failed''))) (pre @ j # post) =
        (DoneOk, if failCount j + 1 \<ge> MAX_FAILS then pre @ post
                 else pre @ j\<lparr>failCount := failCount j + 1, claimedAt := None,
                              claimedBy := None\<rparr> # post) \<and>
      (status \<noteq> Some (JStr (js ''printed'')) \<and> status \<noteq> Some (JStr (js ''failed'')) \<longrightarrow>
         reportOutcome (jid j) status (pre @ j # post) = (InvalidStatus, pre @ j # post))) \<and>
   (distinct (map jid q) \<and> j \<in> set q \<longrightarrow>
      (\<forall>x\<in>set (snd (reportOutcome (jid j) (Some (JStr (js ''printed''))) q)). jid x \<noteq> jid j))"
proof (intro conjI impI)
  show "MAX_FAILS = 3" by (simp add: MAX_FAILS_def)
next
  assume "\<forall>x\<in>set q. jid x \<noteq> jobId"
  then show "reportOutcome jobId status q = (NotFound, q)" by (rule reportOutcome_notfound)
next
  assume a: "\<forall>x\<in>set pre. jid x \<noteq> jid j"
  show "reportOutcome (jid j) (Some (JStr (js ''printed''))) (pre @ j # post) = (DoneOk, pre @ post)"
    by (simp add: reportOutcome_at [OF a])
  show "reportOutcome (jid j) (Some (JStr (js ''failed''))) (pre @ j # post) =
        (DoneOk, if failCount j + 1 \<ge> MAX_FAILS then pre @ post
                 else pre @ j\<lparr>failCount := failCount j + 1, claimedAt := None,
                              claimedBy := None\<rparr> # post)"
    by (simp add: reportOutcome_at [OF a] js_printed_failed)
next
  assume a: "\<forall>x\<in>set pre. jid x \<noteq> jid j"
    and s: "status \<noteq> Some (JStr (js ''printed'')) \<and> status \<noteq> Some (JStr (js ''failed''))"
  then show "reportOutcome (jid j) status (pre @ j # post) = (InvalidStatus, pre @ j # post)"
    by (simp add: reportOutcome_at [OF a])
next
  assume d: "distinct (map jid q) \<and> j \<in> set q"
  then obtain pre post where q: "q = pre @ j # post" "\<forall>x\<in>set pre. jid x \<noteq> jid j"
      "\<forall>x\<in>set post. jid x \<noteq> jid j"
    using distinct_split_first by blast
  have "snd (reportOutcome (jid j) (Some (JStr (js ''printed''))) q) = pre @ post"
    unfolding q(1) by (simp add: reportOutcome_at [OF q(2)])
  then show "\<forall>x\<in>set (snd (reportOutcome (jid j) (Some (JStr (js ''printed''))) q)). jid x \<noteq> jid j"
    using q(2,3) by auto
qed

theorem reportOutcome_outcomes_witness:
  "reportOutcome (js ''zz'') (Some (JStr (js ''printed'')))
     [exampleJob ''a'' 10 None None 0, exampleJob ''b'' 20 (Some 25) (Some ''s1'') 2] =
     (NotFound, [exampleJob ''a'' 10 None None 0, exampleJob ''b'' 20 (Some 25) (Some ''s1'') 2]) \<and>
   reportOutcome (js ''b'') (Some (JStr (js ''printed'')))
     [exampleJob ''a'' 10 None None 0, exampleJob ''b'' 20 (Some 25) (Some ''s1'') 2] =
     (DoneOk, [exampleJob ''a'' 10 None None 0]) \<and>
   reportOutcome (js ''b'') (Some (JStr (js ''failed'')))
     [exampleJob ''a'' 10 None None 0, exampleJob ''b'' 20 (Some 25) (Some ''s1'') 2] =
     (DoneOk, [exampleJob ''a'' 10 None None 0]) \<and>
   reportOutcome (js ''b'') (Some (JStr (js ''failed'')))
     [exampleJob ''a'' 10 None None 0, exampleJob ''b'' 20 (Some 25) (Some ''s1'') 0] =
     (DoneOk, [exampleJob ''a'' 10 None None 0, exampleJob ''b'' 20 None None 1]) \<and>
   reportOutcome (js ''b'') (Some (JStr (js ''cancelled'')))
     [exampleJob ''a'' 10 None None 0, exampleJob ''b'' 20 (Some 25) (Some ''s1'') 2] =
     (InvalidStatus, [exampleJob ''a'' 10 None None 0, exampleJob ''b'' 20 (Some 25) (Some ''s1'') 2])"
proof -
  let ?a = "exampleJob ''a'' 10 None None 0"
  let ?b = "exampleJob ''b'' 20 (Some 25) (Some ''s1'') 2"
  let ?c = "exampleJob ''b'' 20 (Some 25) (Some ''s1'') 0"
  have ids: "jid ?a = js ''a''" "jid ?b = js ''b''" "jid ?c = js ''b''"
    by (simp_all add: exampleJob_def)
  have ne: "js ''a'' \<noteq> js ''b''" "js ''a'' \<noteq> js ''zz''" "js ''b'' \<noteq> js ''zz''"
    by (simp_all add: js_def)
  have st: "Some (JStr (js ''cancelled'')) \<noteq> Some (JStr (js ''printed'')) \<and>
    Some (JStr (js ''cancelled'')) \<noteq> Some (JStr (js ''failed''))"
    by (simp add: js_def)
  have h: "\<forall>x\<in>set [?a]. jid x \<noteq> jid ?b" "\<forall>x\<in>set [?a]. jid x \<noteq> jid ?c"
    "\<forall>x\<in>set [?a, ?b]. jid x \<noteq> js ''zz''"
    using ne by (simp_all add: ids)
  note T = reportOutcome_outcomes [of "[?a, ?b]" "js ''zz''" "Some (JStr (js ''cancelled''))" "[?a]" ?b "[]"]
  note T1 = reportOutcome_outcomes [of "[?a, ?b]" "js ''zz''" "Some (JStr (js ''printed''))" "[?a]" ?b "[]"]
  note T0 = reportOutcome_outcomes [of "[?a, ?b]" "js ''zz''" "Some (JStr (js ''cancelled''))" "[?a]" ?c "[]"]
  have fc1: "failCount ?b + 1 \<ge> MAX_FAILS"
    by (simp add: exampleJob_def MAX_FAILS_def)
  have fc2: "\<not> failCount ?c + 1 \<ge> MAX_FAILS"
    by (simp add: exampleJob_def MAX_FAILS_def)
  have fc3: "?c\<lparr>failCount := failCount ?c + 1, claimedAt := None, claimedBy := None\<rparr> =
      exampleJob ''b'' 20 None None 1"
    by (simp add: exampleJob_def)
  have c1: "reportOutcome (js ''zz'') (Some (JStr (js ''printed''))) [?a, ?b] = (NotFound, [?a, ?b])"
    using T1 h(3) by blast
  have c2: "reportOutcome (js ''b'') (Some (JStr (js ''printed''))) [?a, ?b] = (DoneOk, [?a])"
    using T h(1) by (simp add: ids)
  have c3: "reportOutcome (js ''b'') (Some (JStr (js ''failed''))) [?a, ?b] = (DoneOk, [?a])"
    using T h(1) fc1 by (simp add: ids)
  have c4: "reportOutcome (js ''b'') (Some (JStr (js ''failed''))) [?a, ?c] =
      (DoneOk, [?a, exampleJob ''b'' 20 None None 1])"
    using T0 h(2) fc2 fc3 by (simp add: ids)
  have c5: "reportOutcome (js ''b'') (Some (JStr (js ''cancelled''))) [?a, ?b] =
      (InvalidStatus, [?a, ?b])"
    using T h(1) st by (simp add: ids)
  show ?thesis
    using c1 c2 c3 c4 c5 by simp
qed

lemma releaseClaim_stale:
  "claimedAt j = Some t \<Longrightarrow> t \<noteq> 0 \<Longrightarrow> now - t > PRINT_CLAIM_TTL_MS cfg \<Longrightarrow>
   releaseClaim cfg now j = j\<lparr>claimedAt := None, claimedBy := None\<rparr>"
  by (simp add: releaseClaim_def staleClaim_def)

lemma releaseClaim_fresh:
  "(\<forall>t. claimedAt j = Some t \<longrightarrow> t = 0 \<or> now - t \<le> PRINT_CLAIM_TTL_MS cfg) \<Longrightarrow>
   releaseClaim cfg now j = j"
  by (auto simp: releaseClaim_def staleClaim_def split: option.splits)

lemma not_expiredJob:
  "(\<not> expiredJob cfg now j) = (now - createdAt j \<le> PRINT_JOB_TTL_MS cfg \<and> failCount j < MAX_FAILS)"
  by (auto simp: expiredJob_def)


text \<open>
  Claim C3. A clean-up pass at time \<open>now\<close> keeps, in their order, exactly the jobs with
  \<open>now - createdAt \<le> PRINT_JOB_TTL_MS\<close> and \<open>failCount < MAX_FAILS\<close>, whether claimed
  or not. A job that stays and whose claim is older than \<open>PRINT_CLAIM_TTL_MS\<close> has its
  claim cleared and nothing else changed, so its \<open>failCount\<close> is the same; every other job
  that stays is unchanged. No operation on the queue (enqueue, claim, report, timer)
  lowers the \<open>failCount\<close> of a job, jobs being identified by their unique identifiers.
\<close>

theorem cleanupQueue_pass:
  "fst (cleanupQueue cfg now q) =
     map (releaseClaim cfg now)
       (filter (\<lambda>j. now - createdAt j \<le> PRINT_JOB_TTL_MS cfg \<and> failCount j < MAX_FAILS) q) \<and>
   (\<forall>(a::job) t. claimedAt a = Some t \<and> t \<noteq> 0 \<and> now - t > PRINT_CLAIM_TTL_MS cfg \<longrightarrow>
      releaseClaim cfg now a = a\<lparr>claimedAt := None, claimedBy := None\<rparr> \<and>
      failCount (releaseClaim cfg now a) = failCount a) \<and>
   (\<forall>a::job. (\<forall>t. claimedAt a = Some t \<longrightarrow> t = 0 \<or> now - t \<le> PRINT_CLAIM_TTL_MS cfg) \<longrightarrow>
      releaseClaim cfg now a = a) \<and>
   (distinct (map jid q) \<and> freshOp opn q \<and> j \<in> set q \<and> j' \<in> set (applyOp cfg opn q) \<and>
      jid j = jid j' \<longrightarrow> failCount j \<le> failCount j')"
proof (intro conjI allI impI)
  show "fst (cleanupQueue cfg now q) =
     map (releaseClaim cfg now)
       (filter (\<lambda>j. now - createdAt j \<le> PRINT_JOB_TTL_MS cfg \<and> failCount j < MAX_FAILS) q)"
    by (simp add: cleanupQueue_fst not_expiredJob)
next
  fix a :: job and t
  assume "claimedAt a = Some t \<and> t \<noteq> 0 \<and> now - t > PRINT_CLAIM_TTL_MS cfg"
  then show "releaseClaim cfg now a = a\<lparr>claimedAt := None, claimedBy := None\<rparr>"
    by (simp add: releaseClaim_stale)
next
  fix a :: job
  show "failCount (releaseClaim cfg now a) = failCount a"
    by (rule failCount_releaseClaim)
next
  fix a :: job
  assume "\<forall>t. claimedAt a = Some t \<longrightarrow> t = 0 \<or> now - t \<le> PRINT_CLAIM_TTL_MS cfg"
  then show "releaseClaim cfg now a = a" by (rule releaseClaim_fresh)
next
  assume "distinct (map jid q) \<and> freshOp opn q \<and> j \<in> set q \<and> j' \<in> set (applyOp cfg opn q) \<and>
      jid j = jid j'"
  then show "failCount j \<le> failCount j'"
    using failCount_never_decreases by blast
qed


theorem cleanupQueue_pass_witness:
  "fst (cleanupQueue defaultConfig 400000
     [exampleJob ''a'' 0 None None 0,
      exampleJob ''b'' 200000 (Some 300000) (Some ''s1'') 1,
      exampleJob ''c'' 350000 (Some 390000) (Some ''s2'') 0,
      exampleJob ''d'' 390000 None None 3]) =
     [exampleJob ''b'' 200000 None None 1,
      exampleJob ''c'' 350000 (Some 390000) (Some ''s2'') 0] \<and>
   failCount (exampleJob ''b'' 200000 None None 1) \<le> failCount (exampleJob ''b'' 200000 None None 2)"
proof -
  let ?a = "exampleJob ''a'' 0 None None 0"
  let ?b = "exampleJob ''b'' 200000 (Some 300000) (Some ''s1'') 1"
  let ?c = "exampleJob ''c'' 350000 (Some 390000) (Some ''s2'') 0"
  let ?d = "exampleJob ''d'' 390000 None None 3"
  let ?e = "exampleJob ''b'' 200000 None None 1"
  let ?f = "exampleJob ''b'' 200000 None None 2"
  note T = cleanupQueue_pass [where cfg = defaultConfig and now = 400000 and q = "[?a, ?b, ?c, ?d]"
      and opn = "ReportOutcome (js ''b'') (Some (JStr (js ''failed'')))" and j = ?b and j' = ?f]
  note U = cleanupQueue_pass [where cfg = defaultConfig and now = 400000 and q = "[?e]"
      and opn = "ReportOutcome (js ''b'') (Some (JStr (js ''failed'')))" and j = ?e and j' = ?f]
  have keep: "filter (\<lambda>j. 400000 - createdAt j \<le> PRINT_JOB_TTL_MS defaultConfig \<and> failCount j < MAX_FAILS)
      [?a, ?b, ?c, ?d] = [?b, ?c]"
    by (simp add: exampleJob_def defaultConfig_def MAX_FAILS_def)
  have rb: "releaseClaim defaultConfig 400000 ?b = ?e"
  proof -
    have "claimedAt ?b = Some 300000 \<and> (300000::int) \<noteq> 0 \<and>
        400000 - 300000 > PRINT_CLAIM_TTL_MS defaultConfig"
      by (simp add: exampleJob_def defaultConfig_def)
    with T have "releaseClaim defaultConfig 400000 ?b = ?b\<lparr>claimedAt := None, claimedBy := None\<rparr>"
      by blast
    then show ?thesis by (simp add: exampleJob_def)
  qed
  have rc: "releaseClaim defaultConfig 400000 ?c = ?c"
  proof -
    have "\<forall>t. claimedAt ?c = Some t \<longrightarrow> t = 0 \<or> 400000 - t \<le> PRINT_CLAIM_TTL_MS defaultConfig"
      by (simp add: exampleJob_def defaultConfig_def)
    with T show ?thesis by blast
  qed
  have first: "fst (cleanupQueue defaultConfig 400000 [?a, ?b, ?c, ?d]) = [?e, ?c]"
    using T [THEN conjunct1] unfolding keep list.map rb rc .
  have ro: "applyOp defaultConfig (ReportOutcome (js ''b'') (Some (JStr (js ''failed'')))) [?e] = [?f]"
    using reportOutcome_at [of "[]" ?e "Some (JStr (js ''failed''))" "[]"]
    by (simp add: exampleJob_def MAX_FAILS_def js_printed_failed)
  have "distinct (map jid [?e]) \<and> freshOp (ReportOutcome (js ''b'') (Some (JStr (js ''failed'')))) [?e] \<and>
      ?e \<in> set [?e] \<and> ?f \<in> set (applyOp defaultConfig (ReportOutcome (js ''b'') (Some (JStr (js ''failed'')))) [?e]) \<and>
      jid ?e = jid ?f"
    unfolding ro by (simp add: exampleJob_def)
  with U have "failCount ?e \<le> failCount ?f" by blast
  with first show ?thesis by simp
qed

text \<open>
  Claim C9. A report takes a job identifier and a status only, and its effect does not
  depend on the claim of the job: whatever \<open>claimedAt\<close> and \<open>claimedBy\<close> are (a claim by any
  station, or none), \<^verbatim>\<open>printed\<close> removes the job, and \<^verbatim>\<open>failed\<close> adds one to its
  \<open>failCount\<close> and removes it at the cap.
\<close>

theorem reportOutcome_ignores_claim:
  "(\<forall>x\<in>set pre. jid x \<noteq> jid j) \<longrightarrow>
     reportOutcome (jid j) (Some (JStr (js ''printed'')))
         (pre @ j\<lparr>claimedAt := ca, claimedBy := cb\<rparr> # post) = (DoneOk, pre @ post) \<and>
     reportOutcome (jid j) (Some (JStr (js ''failed'')))
         (pre @ j\<lparr>claimedAt := ca, claimedBy := cb\<rparr> # post) =
       (DoneOk, if failCount j + 1 \<ge> MAX_FAILS then pre @ post
                else pre @ j\<lparr>failCount := failCount j + 1, claimedAt := None,
                             claimedBy := None\<rparr> # post)"
proof
  let ?j = "j\<lparr>claimedAt := ca, claimedBy := cb\<rparr>"
  assume "\<forall>x\<in>set pre. jid x \<noteq> jid j"
  then have a: "\<forall>x\<in>set pre. jid x \<noteq> jid ?j" by simp
  have e: "?j\<lparr>failCount := failCount ?j + 1, claimedAt := None, claimedBy := None\<rparr> =
      j\<lparr>failCount := failCount j + 1, claimedAt := None, claimedBy := None\<rparr>"
    by simp
  have i: "jid ?j = jid j" "failCount ?j = failCount j" by simp_all
  from reportOutcome_at [OF a, of "Some (JStr (js ''printed''))" post]
  have p: "reportOutcome (jid j) (Some (JStr (js ''printed''))) (pre @ ?j # post) = (DoneOk, pre @ post)"
    unfolding i by simp
  from reportOutcome_at [OF a, of "Some (JStr (js ''failed''))" post]
  have f: "reportOutcome (jid j) (Some (JStr (js ''failed''))) (pre @ ?j # post) =
       (DoneOk, if failCount j + 1 \<ge> MAX_FAILS then pre @ post
                else pre @ j\<lparr>failCount := failCount j + 1, claimedAt := None,
                             claimedBy := None\<rparr> # post)"
    unfolding e i by (simp add: js_printed_failed)
  from p f show "reportOutcome (jid j) (Some (JStr (js ''printed'')))
         (pre @ j\<lparr>claimedAt := ca, claimedBy := cb\<rparr> # post) = (DoneOk, pre @ post) \<and>
     reportOutcome (jid j) (Some (JStr (js ''failed'')))
         (pre @ j\<lparr>claimedAt := ca, claimedBy := cb\<rparr> # post) =
       (DoneOk, if failCount j + 1 \<ge> MAX_FAILS then pre @ post
                else pre @ j\<lparr>failCount := failCount j + 1, claimedAt := None,
                             claimedBy := None\<rparr> # post)"
    by (rule conjI)
qed

theorem reportOutcome_ignores_claim_witness:
  "reportOutcome (js ''u'') (Some (JStr (js ''printed'')))
     [exampleJob ''b'' 350000 (Some 390000) (Some ''s1'') 0, exampleJob ''u'' 360000 None None 2] =
     (DoneOk, [exampleJob ''b'' 350000 (Some 390000) (Some ''s1'') 0]) \<and>
   reportOutcome (js ''u'') (Some (JStr (js ''failed'')))
     [exampleJob ''b'' 350000 (Some 390000) (Some ''s1'') 0, exampleJob ''u'' 360000 None None 2] =
     (DoneOk, [exampleJob ''b'' 350000 (Some 390000) (Some ''s1'') 0]) \<and>
   reportOutcome (js ''u'') (Some (JStr (js ''failed'')))
     [exampleJob ''b'' 350000 (Some 390000) (Some ''s1'') 0,
      exampleJob ''u'' 360000 (Some 395000) (Some ''s2'') 2] =
     (DoneOk, [exampleJob ''b'' 350000 (Some 390000) (Some ''s1'') 0])"
proof -
  let ?b = "exampleJob ''b'' 350000 (Some 390000) (Some ''s1'') 0"
  let ?u = "exampleJob ''u'' 360000 None None 2"
  let ?w = "exampleJob ''u'' 360000 (Some 395000) (Some ''s2'') 2"
  have h: "\<forall>x\<in>set [?b]. jid x \<noteq> jid ?u"
    by (simp add: exampleJob_def js_def)
  have fc: "failCount ?u + 1 \<ge> MAX_FAILS"
    by (simp add: exampleJob_def MAX_FAILS_def)
  have e: "?u\<lparr>claimedAt := None, claimedBy := None\<rparr> = ?u"
    "?u\<lparr>claimedAt := Some 395000, claimedBy := Some (js ''s2'')\<rparr> = ?w"
    "jid ?u = js ''u''"
    by (simp_all add: exampleJob_def)
  note T = reportOutcome_ignores_claim [where pre = "[?b]" and j = ?u and post = "[]"
      and ca = None and cb = None]
  note U = reportOutcome_ignores_claim [where pre = "[?b]" and j = ?u and post = "[]"
      and ca = "Some 395000" and cb = "Some (js ''s2'')"]
  from T h fc have c1: "reportOutcome (js ''u'') (Some (JStr (js ''printed''))) [?b, ?u] = (DoneOk, [?b])"
    and c2: "reportOutcome (js ''u'') (Some (JStr (js ''failed''))) [?b, ?u] = (DoneOk, [?b])"
    unfolding e by simp_all
  from U h fc have c3: "reportOutcome (js ''u'') (Some (JStr (js ''failed''))) [?b, ?w] = (DoneOk, [?b])"
    unfolding e by simp
  from c1 c2 c3 show ?thesis by (intro conjI)
qed

section \<open>Properties of the session store\<close>

lemma cleanupSessionsLoop_fst:
  "fst (cleanupSessionsLoop cfg now es (st, n)) =
     filter (\<lambda>(k, v). k \<notin> fst ` {e \<in> set es. now - sessionCreatedAt (snd e) > INPUT_SESSION_TTL_MS cfg}) st"
proof (induction es arbitrary: st n)
  case Nil
  then show ?case by simp
next
  case (Cons e es)
  obtain tok s where e: "e = (tok, s)" by (cases e)
  let ?E = "{x \<in> set es. now - sessionCreatedAt (snd x) > INPUT_SESSION_TTL_MS cfg}"
  show ?case
  proof (cases "now - sessionCreatedAt s > INPUT_SESSION_TTL_MS cfg")
    case True
    have E: "{x \<in> set (e # es). now - sessionCreatedAt (snd x) > INPUT_SESSION_TTL_MS cfg} =
        insert e ?E"
      using True e by auto
    have "fst (cleanupSessionsLoop cfg now (e # es) (st, n)) =
        fst (cleanupSessionsLoop cfg now es (AList.delete tok st, n + 1))"
      using True e by simp
    also have "\<dots> = filter (\<lambda>(k, v). k \<notin> fst ` ?E) (AList.delete tok st)"
      by (rule Cons.IH)
    also have "\<dots> = filter (\<lambda>(k, v). k \<notin> fst ` ?E) (filter (\<lambda>(k, v). tok \<noteq> k) st)"
      by (simp only: AList.delete_eq)
    also have "\<dots> = filter (\<lambda>(k, v). k \<notin> fst ` insert e ?E) st"
      unfolding filter_filter e by (rule filter_cong) auto
    finally show ?thesis unfolding E .
  next
    case False
    have E: "{x \<in> set (e # es). now - sessionCreatedAt (snd x) > INPUT_SESSION_TTL_MS cfg} = ?E"
      using False e by auto
    have "fst (cleanupSessionsLoop cfg now (e # es) (st, n)) =
        fst (cleanupSessionsLoop cfg now es (st, n))"
      using False e by simp
    also have "\<dots> = filter (\<lambda>(k, v). k \<notin> fst ` ?E) st"
      by (rule Cons.IH)
    finally show ?thesis unfolding E .
  qed
qed

lemma cleanupInputSessions_distinct:
  assumes "distinct (map fst store)"
  shows "fst (cleanupInputSessions cfg now store) =
     filter (\<lambda>(k, v). \<not> now - sessionCreatedAt v > INPUT_SESSION_TTL_MS cfg) store"
proof -
  have "\<And>k v. (k, v) \<in> set store \<Longrightarrow>
      (k \<notin> fst ` {e \<in> set store. now - sessionCreatedAt (snd e) > INPUT_SESSION_TTL_MS cfg}) =
      (\<not> now - sessionCreatedAt v > INPUT_SESSION_TTL_MS cfg)"
  proof -
    fix k v assume kv: "(k, v) \<in> set store"
    have same: "\<And>v'. (k, v') \<in> set store \<Longrightarrow> v' = v"
      using assms kv by (meson eq_key_imp_eq_value)
    show "(k \<notin> fst ` {e \<in> set store. now - sessionCreatedAt (snd e) > INPUT_SESSION_TTL_MS cfg}) =
      (\<not> now - sessionCreatedAt v > INPUT_SESSION_TTL_MS cfg)"
    proof
      assume a: "k \<notin> fst ` {e \<in> set store. now - sessionCreatedAt (snd e) > INPUT_SESSION_TTL_MS cfg}"
      show "\<not> now - sessionCreatedAt v > INPUT_SESSION_TTL_MS cfg"
      proof
        assume "now - sessionCreatedAt v > INPUT_SESSION_TTL_MS cfg"
        with kv have "(k, v) \<in> {e \<in> set store. now - sessionCreatedAt (snd e) > INPUT_SESSION_TTL_MS cfg}"
          by simp
        then have "fst (k, v) \<in> fst ` {e \<in> set store. now - sessionCreatedAt (snd e) > INPUT_SESSION_TTL_MS cfg}"
          by (rule imageI)
        with a show False by simp
      qed
    next
      assume a: "\<not> now - sessionCreatedAt v > INPUT_SESSION_TTL_MS cfg"
      show "k \<notin> fst ` {e \<in> set store. now - sessionCreatedAt (snd e) > INPUT_SESSION_TTL_MS cfg}"
      proof
        assume "k \<in> fst ` {e \<in> set store. now - sessionCreatedAt (snd e) > INPUT_SESSION_TTL_MS cfg}"
        then obtain v' where v': "(k, v') \<in> set store"
            "now - sessionCreatedAt v' > INPUT_SESSION_TTL_MS cfg"
          by auto
        from same [OF v'(1)] v'(2) a show False by simp
      qed
    qed
  qed
  then show ?thesis
    unfolding cleanupInputSessions_def cleanupSessionsLoop_fst
    by (intro filter_cong refl) (simp add: case_prod_beta prod.collapse)
qed

lemma map_of_sweep:
  assumes d: "distinct (map fst store)" and m: "map_of store tok = Some s"
  shows "map_of (fst (cleanupInputSessions cfg now store)) tok =
    (if now - sessionCreatedAt s > INPUT_SESSION_TTL_MS cfg then None else Some s)"
proof (cases "now - sessionCreatedAt s > INPUT_SESSION_TTL_MS cfg")
  case True
  have "tok \<notin> fst ` set (filter (\<lambda>(k, v). \<not> now - sessionCreatedAt v > INPUT_SESSION_TTL_MS cfg) store)"
  proof
    assume "tok \<in> fst ` set (filter (\<lambda>(k, v). \<not> now - sessionCreatedAt v > INPUT_SESSION_TTL_MS cfg) store)"
    then obtain v where v: "(tok, v) \<in> set store" "\<not> now - sessionCreatedAt v > INPUT_SESSION_TTL_MS cfg"
      by auto
    from d v(1) have "map_of store tok = Some v" by simp
    with m v(2) True show False by simp
  qed
  then have "map_of (filter (\<lambda>(k, v). \<not> now - sessionCreatedAt v > INPUT_SESSION_TTL_MS cfg) store) tok = None"
    by (simp add: map_of_eq_None_iff)
  with True show ?thesis by (simp add: cleanupInputSessions_distinct [OF d])
next
  case False
  have "map_of (filter (\<lambda>(k, v). \<not> now - sessionCreatedAt v > INPUT_SESSION_TTL_MS cfg) store) tok = Some s"
    using m False by (intro map_of_filter_in) auto
  with False show ?thesis by (simp add: cleanupInputSessions_distinct [OF d])
qed

lemma getInputSession_found:
  assumes "map_of store tok = Some s"
  shows "getInputSession cfg now tok store =
    (if now - sessionCreatedAt s > INPUT_SESSION_TTL_MS cfg then (None, AList.delete tok store)
     else (Some s, store))"
  using assms by (simp add: getInputSession_def)

lemma kept_job_stays:
  assumes "j \<in> set q" "now - createdAt j \<le> PRINT_JOB_TTL_MS cfg" "failCount j < MAX_FAILS"
  shows "releaseClaim cfg now j \<in> set (fst (cleanupQueue cfg now q))"
  using assms by (simp add: cleanupQueue_fst expiredJob_def)


text \<open>
  Claim C10. The three expiry tests are strict. A job whose age is exactly
  \<open>PRINT_JOB_TTL_MS\<close> stays in the queue after a clean-up pass, and a job below the fail cap
  that the pass removed is older than that. A claim whose age is exactly
  \<open>PRINT_CLAIM_TTL_MS\<close> is left in place, and a claim the pass cleared is older than that.
  A session whose age is exactly \<open>INPUT_SESSION_TTL_MS\<close> is returned by
  \<^verbatim>\<open>getInputSession\<close> and kept by the sweep, and a stored session that is refused or swept
  is older than that.
\<close>

theorem expiry_comparisons_strict:
  "(j \<in> set q \<and> now - createdAt j = PRINT_JOB_TTL_MS cfg \<and> failCount j < MAX_FAILS \<longrightarrow>
      releaseClaim cfg now j \<in> set (fst (cleanupQueue cfg now q))) \<and>
   (j \<in> set q \<and> failCount j < MAX_FAILS \<and>
    (\<forall>x\<in>set (fst (cleanupQueue cfg now q)). jid x \<noteq> jid j) \<longrightarrow>
      now - createdAt j > PRINT_JOB_TTL_MS cfg) \<and>
   (claimedAt j = Some t \<and> now - t = PRINT_CLAIM_TTL_MS cfg \<longrightarrow> releaseClaim cfg now j = j) \<and>
   (claimedAt j = Some t \<and> claimedAt (releaseClaim cfg now j) = None \<longrightarrow>
      now - t > PRINT_CLAIM_TTL_MS cfg) \<and>
   (map_of store tok = Some s \<and> now - sessionCreatedAt s = INPUT_SESSION_TTL_MS cfg \<longrightarrow>
      getInputSession cfg now tok store = (Some s, store)) \<and>
   (map_of store tok = Some s \<and> fst (getInputSession cfg now tok store) = None \<longrightarrow>
      now - sessionCreatedAt s > INPUT_SESSION_TTL_MS cfg) \<and>
   (distinct (map fst store) \<and> map_of store tok = Some s \<and>
    now - sessionCreatedAt s = INPUT_SESSION_TTL_MS cfg \<longrightarrow>
      map_of (fst (cleanupInputSessions cfg now store)) tok = Some s) \<and>
   (distinct (map fst store) \<and> map_of store tok = Some s \<and>
    map_of (fst (cleanupInputSessions cfg now store)) tok = None \<longrightarrow>
      now - sessionCreatedAt s > INPUT_SESSION_TTL_MS cfg)"
proof (intro conjI impI)
  assume "j \<in> set q \<and> now - createdAt j = PRINT_JOB_TTL_MS cfg \<and> failCount j < MAX_FAILS"
  then show "releaseClaim cfg now j \<in> set (fst (cleanupQueue cfg now q))"
    by (intro kept_job_stays) simp_all
next
  assume a: "j \<in> set q \<and> failCount j < MAX_FAILS \<and>
    (\<forall>x\<in>set (fst (cleanupQueue cfg now q)). jid x \<noteq> jid j)"
  show "now - createdAt j > PRINT_JOB_TTL_MS cfg"
  proof (rule ccontr)
    assume "\<not> now - createdAt j > PRINT_JOB_TTL_MS cfg"
    with a have "releaseClaim cfg now j \<in> set (fst (cleanupQueue cfg now q))"
      by (intro kept_job_stays) simp_all
    with a have "jid (releaseClaim cfg now j) \<noteq> jid j" by blast
    then show False by (simp add: jid_releaseClaim)
  qed
next
  assume "claimedAt j = Some t \<and> now - t = PRINT_CLAIM_TTL_MS cfg"
  then show "releaseClaim cfg now j = j"
    by (simp add: releaseClaim_def staleClaim_def)
next
  assume "claimedAt j = Some t \<and> claimedAt (releaseClaim cfg now j) = None"
  then show "now - t > PRINT_CLAIM_TTL_MS cfg"
    by (auto simp: releaseClaim_def staleClaim_def split: if_splits)
next
  assume "map_of store tok = Some s \<and> now - sessionCreatedAt s = INPUT_SESSION_TTL_MS cfg"
  then show "getInputSession cfg now tok store = (Some s, store)"
    by (simp add: getInputSession_found)
next
  assume a: "map_of store tok = Some s \<and> fst (getInputSession cfg now tok store) = None"
  then have m: "map_of store tok = Some s" by simp
  from a have "fst (getInputSession cfg now tok store) = None" by simp
  then show "now - sessionCreatedAt s > INPUT_SESSION_TTL_MS cfg"
    unfolding getInputSession_found [OF m] by (cases "now - sessionCreatedAt s > INPUT_SESSION_TTL_MS cfg") simp_all
next
  assume "distinct (map fst store) \<and> map_of store tok = Some s \<and>
    now - sessionCreatedAt s = INPUT_SESSION_TTL_MS cfg"
  then show "map_of (fst (cleanupInputSessions cfg now store)) tok = Some s"
    by (simp add: map_of_sweep)
next
  assume a: "distinct (map fst store) \<and> map_of store tok = Some s \<and>
    map_of (fst (cleanupInputSessions cfg now store)) tok = None"
  then have d: "distinct (map fst store)" and m: "map_of store tok = Some s" by simp_all
  from a have "map_of (fst (cleanupInputSessions cfg now store)) tok = None" by simp
  then show "now - sessionCreatedAt s > INPUT_SESSION_TTL_MS cfg"
    unfolding map_of_sweep [OF d m] by (cases "now - sessionCreatedAt s > INPUT_SESSION_TTL_MS cfg") simp_all
qed



theorem expiry_comparisons_strict_witness:
  "releaseClaim defaultConfig 400000 (exampleJob ''a'' 100000 (Some 340000) (Some ''s1'') 0) \<in>
     set (fst (cleanupQueue defaultConfig 400000
       [exampleJob ''a'' 100000 (Some 340000) (Some ''s1'') 0])) \<and>
   releaseClaim defaultConfig 400000 (exampleJob ''a'' 100000 (Some 340000) (Some ''s1'') 0) =
     exampleJob ''a'' 100000 (Some 340000) (Some ''s1'') 0 \<and>
   getInputSession defaultConfig 700000 (js ''tk'') [(js ''tk'', exampleSession ''tk'' 100000 None)] =
     (Some (exampleSession ''tk'' 100000 None), [(js ''tk'', exampleSession ''tk'' 100000 None)]) \<and>
   map_of (fst (cleanupInputSessions defaultConfig 700000
       [(js ''tk'', exampleSession ''tk'' 100000 None)])) (js ''tk'') =
     Some (exampleSession ''tk'' 100000 None) \<and>
   400001 - createdAt (exampleJob ''a'' 100000 (Some 340000) (Some ''s1'') 0) >
     PRINT_JOB_TTL_MS defaultConfig \<and>
   400001 - 340000 > PRINT_CLAIM_TTL_MS defaultConfig \<and>
   700001 - sessionCreatedAt (exampleSession ''tk'' 100000 None) > INPUT_SESSION_TTL_MS defaultConfig"
proof -
  let ?a = "exampleJob ''a'' 100000 (Some 340000) (Some ''s1'') 0"
  let ?s = "exampleSession ''tk'' 100000 None"
  let ?st = "[(js ''tk'', ?s)]"
  note T = expiry_comparisons_strict [where cfg = defaultConfig and now = 400000 and q = "[?a]"
      and j = ?a and t = 340000 and store = ?st and tok = "js ''tk''" and s = ?s]
  note S = expiry_comparisons_strict [where cfg = defaultConfig and now = 700000 and q = "[?a]"
      and j = ?a and t = 340000 and store = ?st and tok = "js ''tk''" and s = ?s]
  note X = expiry_comparisons_strict [where cfg = defaultConfig and now = 400001 and q = "[?a]"
      and j = ?a and t = 340000 and store = ?st and tok = "js ''tk''" and s = ?s]
  note Y = expiry_comparisons_strict [where cfg = defaultConfig and now = 700001 and q = "[?a]"
      and j = ?a and t = 340000 and store = ?st and tok = "js ''tk''" and s = ?s]
  have h1: "?a \<in> set [?a] \<and> 400000 - createdAt ?a = PRINT_JOB_TTL_MS defaultConfig \<and>
      failCount ?a < MAX_FAILS"
    by (simp add: exampleJob_def defaultConfig_def MAX_FAILS_def)
  have h3: "claimedAt ?a = Some 340000 \<and> 400000 - 340000 = PRINT_CLAIM_TTL_MS defaultConfig"
    by (simp add: exampleJob_def defaultConfig_def)
  have h5: "map_of ?st (js ''tk'') = Some ?s \<and>
      700000 - sessionCreatedAt ?s = INPUT_SESSION_TTL_MS defaultConfig"
    by (simp add: exampleSession_def defaultConfig_def)
  have h7: "distinct (map fst ?st)" by simp
  have gcx: "fst (cleanupQueue defaultConfig 400001 [?a]) = []"
    by (simp add: cleanupQueue_fst expiredJob_def exampleJob_def defaultConfig_def)
  have h2: "?a \<in> set [?a] \<and> failCount ?a < MAX_FAILS \<and>
      (\<forall>x\<in>set (fst (cleanupQueue defaultConfig 400001 [?a])). jid x \<noteq> jid ?a)"
    unfolding gcx by (simp add: exampleJob_def MAX_FAILS_def)
  have h4: "claimedAt ?a = Some 340000 \<and> claimedAt (releaseClaim defaultConfig 400001 ?a) = None"
    by (simp add: releaseClaim_def staleClaim_def exampleJob_def defaultConfig_def)
  have h6: "map_of ?st (js ''tk'') = Some ?s \<and>
      fst (getInputSession defaultConfig 700001 (js ''tk'') ?st) = None"
    by (simp add: getInputSession_def exampleSession_def defaultConfig_def)
  from T h1 have c1: "releaseClaim defaultConfig 400000 ?a \<in> set (fst (cleanupQueue defaultConfig 400000 [?a]))"
    by blast
  from T h3 have c2: "releaseClaim defaultConfig 400000 ?a = ?a" by blast
  from S h5 have c3: "getInputSession defaultConfig 700000 (js ''tk'') ?st = (Some ?s, ?st)" by blast
  from S h5 h7 have c4: "map_of (fst (cleanupInputSessions defaultConfig 700000 ?st)) (js ''tk'') = Some ?s"
    by blast
  from X h2 have c5: "400001 - createdAt ?a > PRINT_JOB_TTL_MS defaultConfig" by blast
  from X h4 have c6: "(400001::int) - 340000 > PRINT_CLAIM_TTL_MS defaultConfig" by blast
  from Y h6 have c7: "700001 - sessionCreatedAt ?s > INPUT_SESSION_TTL_MS defaultConfig" by blast
  from c1 c2 c3 c4 c5 c6 c7 show ?thesis by (intro conjI)
qed

section \<open>Properties of the generator\<close>

declare generateCardLoop.simps [simp del]

declare generateQuestionsLoop.simps [simp del]

lemma generateCardLoop_exhausted:
  "generateCardLoop B backend 4 (Some e) calls = (Inl e, calls)"
  by (subst generateCardLoop.simps) simp

lemma generateCardLoop_step:
  "attempt \<le> 3 \<Longrightarrow> n = attempt + 1 \<Longrightarrow>
   generateCardLoop B backend attempt lastError calls =
     (case bindE (backend calls) (attemptCard B) of
        Inr v \<Rightarrow> (Inr v, Suc calls)
      | Inl err \<Rightarrow> generateCardLoop B backend n (Some err) (Suc calls))"
  by (subst generateCardLoop.simps) (simp split: sum.splits)

lemma generateCardData_unfold:
  "generateCardData B backend c =
     (case bindE (backend c) (attemptCard B) of
        Inr v \<Rightarrow> (Inr v, c + 1)
      | Inl e0 \<Rightarrow>
          (case bindE (backend (c + 1)) (attemptCard B) of
             Inr v \<Rightarrow> (Inr v, c + 2)
           | Inl e1 \<Rightarrow>
               (case bindE (backend (c + 2)) (attemptCard B) of
                  Inr v \<Rightarrow> (Inr v, c + 3)
                | Inl e2 \<Rightarrow> (Inl e2, c + 3))))"
proof -
  have s3': "\<And>le k. generateCardLoop B backend 3 le k =
      (case bindE (backend k) (attemptCard B) of
         Inr v \<Rightarrow> (Inr v, Suc k)
       | Inl e2 \<Rightarrow> generateCardLoop B backend 4 (Some e2) (Suc k))"
    by (rule generateCardLoop_step) simp_all
  have s3: "\<And>le k. generateCardLoop B backend 3 le k =
      (case bindE (backend k) (attemptCard B) of
         Inr v \<Rightarrow> (Inr v, Suc k) | Inl e2 \<Rightarrow> (Inl e2, Suc k))"
    unfolding s3' generateCardLoop_exhausted ..
  have s2: "\<And>le k. generateCardLoop B backend 2 le k =
      (case bindE (backend k) (attemptCard B) of
         Inr v \<Rightarrow> (Inr v, Suc k)
       | Inl e1 \<Rightarrow> generateCardLoop B backend 3 (Some e1) (Suc k))"
    by (rule generateCardLoop_step) simp_all
  have s1: "\<And>le k. generateCardLoop B backend 1 le k =
      (case bindE (backend k) (attemptCard B) of
         Inr v \<Rightarrow> (Inr v, Suc k)
       | Inl e0 \<Rightarrow> generateCardLoop B backend 2 (Some e0) (Suc k))"
    by (rule generateCardLoop_step) simp_all
  have n: "Suc c = c + 1" "Suc (c + 1) = c + 2" "Suc (c + 2) = c + 3" by simp_all
  show ?thesis
    unfolding generateCardData_def s1 s2 s3 n ..
qed

lemma generateQuestionsLoop_exhausted:
  "generateQuestionsLoop B backend 4 (Some e) calls = (Inl e, calls)"
  by (subst generateQuestionsLoop.simps) simp

lemma generateQuestionsLoop_step:
  "attempt \<le> 3 \<Longrightarrow> n = attempt + 1 \<Longrightarrow>
   generateQuestionsLoop B backend attempt lastError calls =
     (case bindE (backend calls) (attemptQuestions B) of
        Inr v \<Rightarrow> (Inr v, Suc calls)
      | Inl err \<Rightarrow> generateQuestionsLoop B backend n (Some err) (Suc calls))"
  by (subst generateQuestionsLoop.simps) (simp split: sum.splits)

lemma generateQuestions_unfold:
  "generateQuestions B backend c =
     (case bindE (backend c) (attemptQuestions B) of
        Inr v \<Rightarrow> (Inr v, c + 1)
      | Inl e0 \<Rightarrow>
          (case bindE (backend (c + 1)) (attemptQuestions B) of
             Inr v \<Rightarrow> (Inr v, c + 2)
           | Inl e1 \<Rightarrow>
               (case bindE (backend (c + 2)) (attemptQuestions B) of
                  Inr v \<Rightarrow> (Inr v, c + 3)
                | Inl e2 \<Rightarrow> (Inl e2, c + 3))))"
proof -
  have s3': "\<And>le k. generateQuestionsLoop B backend 3 le k =
      (case bindE (backend k) (attemptQuestions B) of
         Inr v \<Rightarrow> (Inr v, Suc k)
       | Inl e2 \<Rightarrow> generateQuestionsLoop B backend 4 (Some e2) (Suc k))"
    by (rule generateQuestionsLoop_step) simp_all
  have s3: "\<And>le k. generateQuestionsLoop B backend 3 le k =
      (case bindE (backend k) (attemptQuestions B) of
         Inr v \<Rightarrow> (Inr v, Suc k) | Inl e2 \<Rightarrow> (Inl e2, Suc k))"
    unfolding s3' generateQuestionsLoop_exhausted ..
  have s2: "\<And>le k. generateQuestionsLoop B backend 2 le k =
      (case bindE (backend k) (attemptQuestions B) of
         Inr v \<Rightarrow> (Inr v, Suc k)
       | Inl e1 \<Rightarrow> generateQuestionsLoop B backend 3 (Some e1) (Suc k))"
    by (rule generateQuestionsLoop_step) simp_all
  have s1: "\<And>le k. generateQuestionsLoop B backend 1 le k =
      (case bindE (backend k) (attemptQuestions B) of
         Inr v \<Rightarrow> (Inr v, Suc k)
       | Inl e0 \<Rightarrow> generateQuestionsLoop B backend 2 (Some e0) (Suc k))"
    by (rule generateQuestionsLoop_step) simp_all
  have n: "Suc c = c + 1" "Suc (c + 1) = c + 2" "Suc (c + 2) = c + 3" by simp_all
  show ?thesis
    unfolding generateQuestions_def s1 s2 s3 n ..
qed

text \<open>
  Claim C4. \<^verbatim>\<open>generateCardData\<close> and \<^verbatim>\<open>generateQuestions\<close> call the backend at most three
  times, once per attempt. The first attempt that parses and validates ends the loop and
  its value is returned. When the three attempts fail, the error returned is the error of
  the third; an error is returned only then, after three calls.
\<close>

theorem generate_three_attempts:
  "generateCardData B backend c =
     (case bindE (backend c) (attemptCard B) of
        Inr v \<Rightarrow> (Inr v, c + 1)
      | Inl e0 \<Rightarrow>
          (case bindE (backend (c + 1)) (attemptCard B) of
             Inr v \<Rightarrow> (Inr v, c + 2)
           | Inl e1 \<Rightarrow>
               (case bindE (backend (c + 2)) (attemptCard B) of
                  Inr v \<Rightarrow> (Inr v, c + 3)
                | Inl e2 \<Rightarrow> (Inl e2, c + 3)))) \<and>
   generateQuestions B backend c =
     (case bindE (backend c) (attemptQuestions B) of
        Inr v \<Rightarrow> (Inr v, c + 1)
      | Inl e0 \<Rightarrow>
          (case bindE (backend (c + 1)) (attemptQuestions B) of
             Inr v \<Rightarrow> (Inr v, c + 2)
           | Inl e1 \<Rightarrow>
               (case bindE (backend (c + 2)) (attemptQuestions B) of
                  Inr v \<Rightarrow> (Inr v, c + 3)
                | Inl e2 \<Rightarrow> (Inl e2, c + 3)))) \<and>
   c < snd (generateCardData B backend c) \<and> snd (generateCardData B backend c) \<le> c + 3 \<and>
   c < snd (generateQuestions B backend c) \<and> snd (generateQuestions B backend c) \<le> c + 3 \<and>
   (fst (generateCardData B backend c) = Inl e \<longrightarrow>
      snd (generateCardData B backend c) = c + 3 \<and>
      isl (bindE (backend c) (attemptCard B)) \<and>
      isl (bindE (backend (c + 1)) (attemptCard B)) \<and>
      bindE (backend (c + 2)) (attemptCard B) = Inl e) \<and>
   (fst (generateQuestions B backend c) = Inl e' \<longrightarrow>
      snd (generateQuestions B backend c) = c + 3 \<and>
      isl (bindE (backend c) (attemptQuestions B)) \<and>
      isl (bindE (backend (c + 1)) (attemptQuestions B)) \<and>
      bindE (backend (c + 2)) (attemptQuestions B) = Inl e')"
proof (intro conjI impI)
  show "generateCardData B backend c =
     (case bindE (backend c) (attemptCard B) of
        Inr v \<Rightarrow> (Inr v, c + 1)
      | Inl e0 \<Rightarrow>
          (case bindE (backend (c + 1)) (attemptCard B) of
             Inr v \<Rightarrow> (Inr v, c + 2)
           | Inl e1 \<Rightarrow>
               (case bindE (backend (c + 2)) (attemptCard B) of
                  Inr v \<Rightarrow> (Inr v, c + 3)
                | Inl e2 \<Rightarrow> (Inl e2, c + 3))))"
    by (rule generateCardData_unfold)
  show "generateQuestions B backend c =
     (case bindE (backend c) (attemptQuestions B) of
        Inr v \<Rightarrow> (Inr v, c + 1)
      | Inl e0 \<Rightarrow>
          (case bindE (backend (c + 1)) (attemptQuestions B) of
             Inr v \<Rightarrow> (Inr v, c + 2)
           | Inl e1 \<Rightarrow>
               (case bindE (backend (c + 2)) (attemptQuestions B) of
                  Inr v \<Rightarrow> (Inr v, c + 3)
                | Inl e2 \<Rightarrow> (Inl e2, c + 3))))"
    by (rule generateQuestions_unfold)
  show "c < snd (generateCardData B backend c)"
    unfolding generateCardData_unfold by (simp split: sum.splits)
  show "snd (generateCardData B backend c) \<le> c + 3"
    unfolding generateCardData_unfold by (simp split: sum.splits)
  show "c < snd (generateQuestions B backend c)"
    unfolding generateQuestions_unfold by (simp split: sum.splits)
  show "snd (generateQuestions B backend c) \<le> c + 3"
    unfolding generateQuestions_unfold by (simp split: sum.splits)
next
  assume a: "fst (generateCardData B backend c) = Inl e"
  from a show "snd (generateCardData B backend c) = c + 3"
    unfolding generateCardData_unfold by (simp split: sum.splits)
  from a show "isl (bindE (backend c) (attemptCard B))"
    unfolding generateCardData_unfold by (simp split: sum.splits)
  from a show "isl (bindE (backend (c + 1)) (attemptCard B))"
    unfolding generateCardData_unfold by (simp split: sum.splits)
  from a show "bindE (backend (c + 2)) (attemptCard B) = Inl e"
    unfolding generateCardData_unfold by (simp split: sum.splits)
next
  assume a: "fst (generateQuestions B backend c) = Inl e'"
  from a show "snd (generateQuestions B backend c) = c + 3"
    unfolding generateQuestions_unfold by (simp split: sum.splits)
  from a show "isl (bindE (backend c) (attemptQuestions B))"
    unfolding generateQuestions_unfold by (simp split: sum.splits)
  from a show "isl (bindE (backend (c + 1)) (attemptQuestions B))"
    unfolding generateQuestions_unfold by (simp split: sum.splits)
  from a show "bindE (backend (c + 2)) (attemptQuestions B) = Inl e'"
    unfolding generateQuestions_unfold by (simp split: sum.splits)
qed

lemma trim_id:
  assumes "s \<noteq> []" "\<not> isWhiteSpace (hd s)" "\<not> isWhiteSpace (last s)"
  shows "trim s = s"
proof -
  from assms(1,2) have a: "dropWhile isWhiteSpace s = s"
    by (cases s) simp_all
  from assms(1,3) have "dropWhile isWhiteSpace (rev s) = rev s"
    by (cases "rev s") (simp_all add: last_rev [symmetric] hd_rev)
  with a show ?thesis by (simp add: trim_def)
qed

lemma isInteger_Fin_int: "isInteger (Fin (of_int k))"
  by simp

lemma clampText_string:
  "clampText B (Some (JStr s)) n =
     Inr (if length (trim s) > n then take n (trim s) else trim s)"
  by (simp add: clampText_def bindE_def Let_def slice_def)

lemma trim_examples:
  "trim (js ''Nova'') = js ''Nova''"
  "trim (js ''Echo Rider'') = js ''Echo Rider''"
  "trim (js ''Photon Step'') = js ''Photon Step''"
  "trim (js ''Reads the room and moves first.'') = js ''Reads the room and moves first.''"
  by (rule trim_id; simp add: js_def isWhiteSpace_def)+

lemma example_card_valid: "normalizeCardData exampleBuiltins exampleCardJson = Inr (Some exampleCard)"
proof -
  have k: "js ''class'' \<noteq> js ''name''" "js ''stats'' \<noteq> js ''name''" "js ''skill'' \<noteq> js ''name''"
    "js ''description'' \<noteq> js ''name''" "js ''stats'' \<noteq> js ''class''" "js ''skill'' \<noteq> js ''class''"
    "js ''description'' \<noteq> js ''class''" "js ''skill'' \<noteq> js ''stats''" "js ''description'' \<noteq> js ''stats''"
    "js ''description'' \<noteq> js ''skill''"
    "js ''logic'' \<noteq> js ''sense''" "js ''luck'' \<noteq> js ''sense''" "js ''charm'' \<noteq> js ''sense''"
    "js ''vibe'' \<noteq> js ''sense''" "js ''luck'' \<noteq> js ''logic''" "js ''charm'' \<noteq> js ''logic''"
    "js ''vibe'' \<noteq> js ''logic''" "js ''charm'' \<noteq> js ''luck''" "js ''vibe'' \<noteq> js ''luck''"
    "js ''vibe'' \<noteq> js ''charm''"
    by (simp_all add: js_def)
  have l: "length (js ''Nova'') \<le> 12" "length (js ''Echo Rider'') \<le> 15"
    "length (js ''Photon Step'') \<le> 20" "length (js ''Reads the room and moves first.'') \<le> 60"
    "js ''Nova'' \<noteq> []" "js ''Echo Rider'' \<noteq> []" "js ''Photon Step'' \<noteq> []"
    "js ''Reads the room and moves first.'' \<noteq> []"
    by (simp_all add: js_def)
  have i: "\<not> invalidStat (Fin 80)" "\<not> invalidStat (Fin 72)" "\<not> invalidStat (Fin 40)"
    "\<not> invalidStat (Fin 65)" "\<not> invalidStat (Fin 91)"
    by (simp_all add: invalidStat_def)
  show ?thesis
    using k l i
    by (simp add: normalizeCardData_def exampleCardJson_def exampleCard_def isObjectValue_def
        bindE_def clampText_string trim_examples)
qed

lemma span_indexOf:
  assumes "c \<notin> set pre"
  shows "indexOf (pre @ c # rest) c = Some (length pre)"
  unfolding indexOf_def using assms by (intro findIndex_append) auto

lemma span_lastIndexOf:
  assumes "c \<notin> set post"
  shows "lastIndexOf (front @ c # post) c = Some (length front)"
proof -
  have "findIndex (\<lambda>x. x = c) (rev post @ c # rev front) = Some (length (rev post))"
    using assms by (intro findIndex_append) auto
  then show ?thesis by (simp add: lastIndexOf_def)
qed

lemma span_slice:
  "slice (pre @ x # mid @ y # post) (length pre) (length pre + length mid + 1 + 1) = x # mid @ [y]"
  by (simp add: slice_def)

lemma extractJsonObject_span:
  assumes "123 \<notin> set pre" "125 \<notin> set post"
  shows "extractJsonObject B (pre @ 123 # mid @ 125 # post) =
    (case JSON_parse B (123 # mid @ [125]) of Inl e \<Rightarrow> None | Inr v \<Rightarrow> Some v)"
proof -
  have i: "indexOf (pre @ 123 # mid @ 125 # post) 123 = Some (length pre)"
    using assms(1) by (rule span_indexOf)
  have "lastIndexOf ((pre @ 123 # mid) @ 125 # post) 125 = Some (length (pre @ 123 # mid))"
    using assms(2) by (rule span_lastIndexOf)
  then have l: "lastIndexOf (pre @ 123 # mid @ 125 # post) 125 = Some (length pre + length mid + 1)"
    by simp
  have s: "slice (pre @ 123 # mid @ 125 # post) (length pre) (length pre + length mid + 1 + 1) =
      123 # mid @ [125]"
    by (rule span_slice)
  show ?thesis
    unfolding extractJsonObject_def i l using s by simp
qed

lemma split_two:
  assumes "i < j" "j < length t"
  shows "t = take i t @ t ! i # take (j - Suc i) (drop (Suc i) t) @ t ! j # drop (Suc j) t"
proof -
  from assms have i: "i < length t" by simp
  let ?u = "drop (Suc i) t"
  from assms have k: "j - Suc i < length ?u" by simp
  have "?u = take (j - Suc i) ?u @ ?u ! (j - Suc i) # drop (Suc (j - Suc i)) ?u"
    using k by (rule id_take_nth_drop)
  moreover have "?u ! (j - Suc i) = t ! j" using assms by simp
  moreover have "drop (Suc (j - Suc i)) ?u = drop (Suc j) t" using assms by simp
  ultimately have u: "?u = take (j - Suc i) ?u @ t ! j # drop (Suc j) t" by simp
  have "t = take i t @ t ! i # ?u" using i by (rule id_take_nth_drop)
  with u show ?thesis by simp
qed

lemma lastIndexOf_Some:
  assumes "lastIndexOf t c = Some j"
  shows "j < length t \<and> t ! j = c"
proof -
  from assms obtain k where k: "findIndex (\<lambda>x. x = c) (rev t) = Some k" "j = length t - 1 - k"
    by (auto simp: lastIndexOf_def)
  from findIndex_Some [OF k(1)] have kl: "k < length t" and r: "rev t ! k = c" by simp_all
  from kl r have "t ! (length t - Suc k) = c" by (simp add: rev_nth)
  with kl k(2) show ?thesis by simp
qed

lemma extractJsonObject_no_span:
  assumes "\<forall>pre mid post. t \<noteq> pre @ 123 # mid @ 125 # post"
  shows "extractJsonObject B t = None"
proof (cases "indexOf t 123")
  case None
  then show ?thesis by (simp add: extractJsonObject_def)
next
  case (Some i)
  note i = this
  show ?thesis
  proof (cases "lastIndexOf t 125")
    case None
    with i show ?thesis by (simp add: extractJsonObject_def)
  next
    case (Some j)
    have "j \<le> i"
    proof (rule ccontr)
      assume "\<not> j \<le> i"
      then have ij: "i < j" by simp
      from lastIndexOf_Some [OF Some] have j: "j < length t" "t ! j = 125" by simp_all
      from i have "t ! i = 123" by (auto simp: indexOf_def dest: findIndex_Some)
      with split_two [OF ij j(1)] j(2)
      have "t = take i t @ 123 # take (j - Suc i) (drop (Suc i) t) @ 125 # drop (Suc j) t"
        by simp
      with assms show False by blast
    qed
    with i Some show ?thesis by (simp add: extractJsonObject_def)
  qed
qed

lemma parseCard_cases:
  "parseCard B raw =
     (if trim raw = [] then Inl (Error (js ''JSON parse failed: empty response''))
      else case JSON_parse B raw of
             Inr v \<Rightarrow> Inr v
           | Inl (Error m) \<Rightarrow>
               (case extractJsonObject B (trim raw) of
                  Some v \<Rightarrow> if truthy v then Inr v else Inl (Error (js ''JSON parse failed: '' @ m))
                | None \<Rightarrow> Inl (Error (js ''JSON parse failed: '' @ m))))"
  by (simp add: parseCard_def Let_def)

lemma parseQuestions_cases:
  "parseQuestions B raw =
     (if trim raw = [] then Inl (Error (js ''Question JSON parse failed: empty response''))
      else case JSON_parse B (trim raw) of
             Inr v \<Rightarrow> Inr v
           | Inl (Error m) \<Rightarrow>
               (case extractJsonObject B (trim raw) of
                  Some v \<Rightarrow> if truthy v then Inr v
                            else Inl (Error (js ''Question JSON parse failed: '' @ m))
                | None \<Rightarrow> Inl (Error (js ''Question JSON parse failed: '' @ m))))"
  by (simp add: parseQuestions_def Let_def)

lemma attemptCard_span:
  assumes t: "trim raw = pre @ 123 # mid @ 125 # post" and p: "123 \<notin> set pre" "125 \<notin> set post"
    and f: "JSON_parse B raw = Inl (Error m)"
  shows "attemptCard B raw =
    (case JSON_parse B (123 # mid @ [125]) of
       Inr v \<Rightarrow> if truthy v then validateCard B v else Inl (Error (js ''JSON parse failed: '' @ m))
     | Inl e \<Rightarrow> Inl (Error (js ''JSON parse failed: '' @ m)))"
proof -
  have ne: "trim raw \<noteq> []" using t by simp
  have x: "extractJsonObject B (trim raw) =
      (case JSON_parse B (123 # mid @ [125]) of Inl e \<Rightarrow> None | Inr v \<Rightarrow> Some v)"
    unfolding t using p by (rule extractJsonObject_span)
  show ?thesis
    unfolding attemptCard_def parseCard_cases x using ne f
    by (simp add: bindE_def split: sum.splits)
qed

lemma attemptQuestions_span:
  assumes t: "trim raw = pre @ 123 # mid @ 125 # post" and p: "123 \<notin> set pre" "125 \<notin> set post"
    and f: "JSON_parse B (trim raw) = Inl (Error m)"
  shows "attemptQuestions B raw =
    (case JSON_parse B (123 # mid @ [125]) of
       Inr v \<Rightarrow> if truthy v then validateQuestions B v
                else Inl (Error (js ''Question JSON parse failed: '' @ m))
     | Inl e \<Rightarrow> Inl (Error (js ''Question JSON parse failed: '' @ m)))"
proof -
  have ne: "trim raw \<noteq> []" using t by simp
  have x: "extractJsonObject B (trim raw) =
      (case JSON_parse B (123 # mid @ [125]) of Inl e \<Rightarrow> None | Inr v \<Rightarrow> Some v)"
    unfolding t using p by (rule extractJsonObject_span)
  show ?thesis
    unfolding attemptQuestions_def parseQuestions_cases x using ne f
    by (simp add: bindE_def split: sum.splits)
qed

text \<open>
  Claim C5. An attempt on a text that is blank after trimming fails with the parse error
  "empty response". Otherwise the whole text is parsed (the trimmed text, for the
  questions) and, when that succeeds, the value goes to validation. When it fails and the
  trimmed text has a first \<open>{\<close> followed, later, by a last \<open>}\<close>, the span between them
  (inclusive) is parsed and a value obtained from it goes to validation; when the span does
  not parse, or there is no such span, the attempt fails with the parse error carrying the
  message of the first parse.
\<close>

theorem attempt_parse_then_brace_span:
  "(trim raw = [] \<longrightarrow>
      attemptCard B raw = Inl (Error (js ''JSON parse failed: empty response'')) \<and>
      attemptQuestions B raw = Inl (Error (js ''Question JSON parse failed: empty response''))) \<and>
   (trim raw \<noteq> [] \<and> JSON_parse B raw = Inr v \<longrightarrow> attemptCard B raw = validateCard B v) \<and>
   (trim raw \<noteq> [] \<and> JSON_parse B (trim raw) = Inr v \<longrightarrow>
      attemptQuestions B raw = validateQuestions B v) \<and>
   (trim raw = pre @ 123 # mid @ 125 # post \<and> 123 \<notin> set pre \<and> 125 \<notin> set post \<and>
    JSON_parse B raw = Inl (Error m) \<longrightarrow>
      attemptCard B raw =
        (case JSON_parse B (123 # mid @ [125]) of
           Inr v \<Rightarrow> if truthy v then validateCard B v
                    else Inl (Error (js ''JSON parse failed: '' @ m))
         | Inl e \<Rightarrow> Inl (Error (js ''JSON parse failed: '' @ m)))) \<and>
   (trim raw = pre @ 123 # mid @ 125 # post \<and> 123 \<notin> set pre \<and> 125 \<notin> set post \<and>
    JSON_parse B (trim raw) = Inl (Error m) \<longrightarrow>
      attemptQuestions B raw =
        (case JSON_parse B (123 # mid @ [125]) of
           Inr v \<Rightarrow> if truthy v then validateQuestions B v
                    else Inl (Error (js ''Question JSON parse failed: '' @ m))
         | Inl e \<Rightarrow> Inl (Error (js ''Question JSON parse failed: '' @ m)))) \<and>
   (trim raw \<noteq> [] \<and> (\<forall>a b c. trim raw \<noteq> a @ 123 # b @ 125 # c) \<and>
    JSON_parse B raw = Inl (Error m) \<longrightarrow>
      attemptCard B raw = Inl (Error (js ''JSON parse failed: '' @ m))) \<and>
   (trim raw \<noteq> [] \<and> (\<forall>a b c. trim raw \<noteq> a @ 123 # b @ 125 # c) \<and>
    JSON_parse B (trim raw) = Inl (Error m) \<longrightarrow>
      attemptQuestions B raw = Inl (Error (js ''Question JSON parse failed: '' @ m)))"
proof (intro conjI impI)
  assume "trim raw = []"
  then show "attemptCard B raw = Inl (Error (js ''JSON parse failed: empty response''))"
    by (simp add: attemptCard_def parseCard_cases bindE_def)
next
  assume "trim raw = []"
  then show "attemptQuestions B raw = Inl (Error (js ''Question JSON parse failed: empty response''))"
    by (simp add: attemptQuestions_def parseQuestions_cases bindE_def)
next
  assume "trim raw \<noteq> [] \<and> JSON_parse B raw = Inr v"
  then show "attemptCard B raw = validateCard B v"
    by (simp add: attemptCard_def parseCard_cases bindE_def)
next
  assume "trim raw \<noteq> [] \<and> JSON_parse B (trim raw) = Inr v"
  then show "attemptQuestions B raw = validateQuestions B v"
    by (simp add: attemptQuestions_def parseQuestions_cases bindE_def)
next
  assume a: "trim raw = pre @ 123 # mid @ 125 # post \<and> 123 \<notin> set pre \<and> 125 \<notin> set post \<and>
    JSON_parse B raw = Inl (Error m)"
  from a have a1: "trim raw = pre @ 123 # mid @ 125 # post" by (rule conjunct1)
  from a have a2: "123 \<notin> set pre" by blast
  from a have a3: "125 \<notin> set post" by blast
  from a have a4: "JSON_parse B raw = Inl (Error m)" by blast
  show "attemptCard B raw =
        (case JSON_parse B (123 # mid @ [125]) of
           Inr v \<Rightarrow> if truthy v then validateCard B v
                    else Inl (Error (js ''JSON parse failed: '' @ m))
         | Inl e \<Rightarrow> Inl (Error (js ''JSON parse failed: '' @ m)))"
    using a1 a2 a3 a4 by (rule attemptCard_span)
next
  assume a: "trim raw = pre @ 123 # mid @ 125 # post \<and> 123 \<notin> set pre \<and> 125 \<notin> set post \<and>
    JSON_parse B (trim raw) = Inl (Error m)"
  from a have a1: "trim raw = pre @ 123 # mid @ 125 # post" by (rule conjunct1)
  from a have a2: "123 \<notin> set pre" by blast
  from a have a3: "125 \<notin> set post" by blast
  from a have a4: "JSON_parse B (trim raw) = Inl (Error m)" by blast
  show "attemptQuestions B raw =
        (case JSON_parse B (123 # mid @ [125]) of
           Inr v \<Rightarrow> if truthy v then validateQuestions B v
                    else Inl (Error (js ''Question JSON parse failed: '' @ m))
         | Inl e \<Rightarrow> Inl (Error (js ''Question JSON parse failed: '' @ m)))"
    using a1 a2 a3 a4 by (rule attemptQuestions_span)
next
  assume a: "trim raw \<noteq> [] \<and> (\<forall>a b c. trim raw \<noteq> a @ 123 # b @ 125 # c) \<and>
    JSON_parse B raw = Inl (Error m)"
  then have "extractJsonObject B (trim raw) = None"
    by (intro extractJsonObject_no_span) simp
  with a show "attemptCard B raw = Inl (Error (js ''JSON parse failed: '' @ m))"
    by (simp add: attemptCard_def parseCard_cases bindE_def)
next
  assume a: "trim raw \<noteq> [] \<and> (\<forall>a b c. trim raw \<noteq> a @ 123 # b @ 125 # c) \<and>
    JSON_parse B (trim raw) = Inl (Error m)"
  then have "extractJsonObject B (trim raw) = None"
    by (intro extractJsonObject_no_span) simp
  with a show "attemptQuestions B raw = Inl (Error (js ''Question JSON parse failed: '' @ m))"
    by (simp add: attemptQuestions_def parseQuestions_cases bindE_def)
qed

lemma braces_shape:
  assumes "s \<noteq> []" "hd s = a" "tl s \<noteq> []" "last s = b"
  shows "s = a # butlast (tl s) @ [b]"
proof -
  from assms(1,2) have s: "s = a # tl s" by (cases s) simp_all
  from assms(3,4) s have "last (tl s) = b" by (metis last_ConsR)
  with assms(3) have "tl s = butlast (tl s) @ [b]"
    using append_butlast_last_id [of "tl s"] by simp
  with s show ?thesis by simp
qed

lemma example_texts:
  "hd exampleCardText = 123" "last exampleCardText = 125" "exampleCardText \<noteq> []"
  "tl exampleCardText \<noteq> []"
  "hd exampleQuestionsText = 123" "last exampleQuestionsText = 125" "exampleQuestionsText \<noteq> []"
  "tl exampleQuestionsText \<noteq> []"
  by (simp_all add: exampleCardText_def exampleQuestionsText_def js_def)

lemma example_texts_differ: "exampleQuestionsText \<noteq> exampleCardText"
proof
  assume "exampleQuestionsText = exampleCardText"
  then have "exampleQuestionsText ! 2 = exampleCardText ! 2" by simp
  then show False by (simp add: exampleCardText_def exampleQuestionsText_def js_def)
qed

lemma trim_example_texts:
  "trim exampleCardText = exampleCardText" "trim exampleQuestionsText = exampleQuestionsText"
  by (rule trim_id; simp add: example_texts isWhiteSpace_def)+

lemma example_parse:
  "JSON_parse exampleBuiltins exampleCardText = Inr exampleCardJson"
  "JSON_parse exampleBuiltins exampleQuestionsText = Inr exampleQuestionsJson"
  "hd t \<noteq> 123 \<Longrightarrow> JSON_parse exampleBuiltins t = Inl (Error (js ''Unexpected token''))"
  using example_texts example_texts_differ by (auto simp: exampleBuiltins_def)

lemma example_card_truthy: "truthy exampleCardJson" "truthy exampleQuestionsJson"
  by (simp_all add: exampleCardJson_def exampleQuestionsJson_def)

lemma example_validateCard: "validateCard exampleBuiltins exampleCardJson = Inr exampleCard"
  by (simp add: validateCard_def example_card_valid)

lemma no_brace_no_span: "123 \<notin> set t \<Longrightarrow> \<forall>a b c. t \<noteq> a @ 123 # b @ 125 # c"
  by auto

theorem attempt_parse_then_brace_span_witness:
  "attemptCard exampleBuiltins (js ''here is your json: '' @ exampleCardText) = Inr exampleCard \<and>
   attemptCard exampleBuiltins exampleCardText = Inr exampleCard \<and>
   attemptCard exampleBuiltins (js ''  '') = Inl (Error (js ''JSON parse failed: empty response'')) \<and>
   attemptCard exampleBuiltins (js ''sorry, no json'') =
     Inl (Error (js ''JSON parse failed: '' @ js ''Unexpected token''))"
proof -
  let ?prose = "js ''here is your json: ''"
  let ?raw = "?prose @ exampleCardText"
  let ?mid = "butlast (tl exampleCardText)"
  let ?no = "js ''sorry, no json''"
  let ?m = "js ''Unexpected token''"
  have shape: "exampleCardText = 123 # ?mid @ [125]"
    using example_texts(3,1,4,2) by (rule braces_shape)
  have tr: "trim ?raw = ?raw"
    by (rule trim_id) (simp_all add: example_texts isWhiteSpace_def js_def)
  have dec: "trim ?raw = ?prose @ 123 # ?mid @ 125 # []"
    unfolding tr using shape by simp
  have np: "123 \<notin> set ?prose" "125 \<notin> set ([]::jsstring)" by (simp_all add: js_def)
  have pf: "JSON_parse exampleBuiltins ?raw = Inl (Error ?m)"
    by (rule example_parse(3)) (simp add: js_def)
  note T = attempt_parse_then_brace_span [where B = exampleBuiltins and raw = ?raw and pre = ?prose
      and mid = ?mid and post = "[]" and m = ?m]
  from T dec np pf have "attemptCard exampleBuiltins ?raw =
      (case JSON_parse exampleBuiltins (123 # ?mid @ [125]) of
           Inr v \<Rightarrow> if truthy v then validateCard exampleBuiltins v
                    else Inl (Error (js ''JSON parse failed: '' @ ?m))
         | Inl e \<Rightarrow> Inl (Error (js ''JSON parse failed: '' @ ?m)))"
    by blast
  then have c1: "attemptCard exampleBuiltins ?raw = Inr exampleCard"
    unfolding shape [symmetric] example_parse(1)
    by (simp add: example_card_truthy example_validateCard)
  note U = attempt_parse_then_brace_span [where B = exampleBuiltins and raw = exampleCardText
      and v = exampleCardJson]
  have "trim exampleCardText \<noteq> [] \<and> JSON_parse exampleBuiltins exampleCardText = Inr exampleCardJson"
    by (simp add: trim_example_texts example_texts example_parse)
  with U have "attemptCard exampleBuiltins exampleCardText = validateCard exampleBuiltins exampleCardJson"
    by blast
  then have c2: "attemptCard exampleBuiltins exampleCardText = Inr exampleCard"
    by (simp add: example_validateCard)
  note V = attempt_parse_then_brace_span [where B = exampleBuiltins and raw = "js ''  ''"]
  have "trim (js ''  '') = []" by (simp add: trim_def js_def isWhiteSpace_def)
  with V have c3: "attemptCard exampleBuiltins (js ''  '') =
      Inl (Error (js ''JSON parse failed: empty response''))"
    by blast
  note W = attempt_parse_then_brace_span [where B = exampleBuiltins and raw = ?no and m = ?m]
  have tn: "trim ?no = ?no"
    by (rule trim_id) (simp_all add: isWhiteSpace_def js_def)
  have "123 \<notin> set ?no" by (simp add: js_def)
  then have "\<forall>a b c. ?no \<noteq> a @ 123 # b @ 125 # c" by (rule no_brace_no_span)
  moreover have "?no \<noteq> []" by (simp add: js_def)
  moreover have "JSON_parse exampleBuiltins ?no = Inl (Error ?m)"
    by (rule example_parse(3)) (simp add: js_def)
  ultimately have "trim ?no \<noteq> [] \<and> (\<forall>a b c. trim ?no \<noteq> a @ 123 # b @ 125 # c) \<and>
      JSON_parse exampleBuiltins ?no = Inl (Error ?m)"
    unfolding tn by simp
  with W have c4: "attemptCard exampleBuiltins ?no = Inl (Error (js ''JSON parse failed: '' @ ?m))"
    by blast
  from c1 c2 c3 c4 show ?thesis by (intro conjI)
qed

lemma trim_question_examples:
  "trim (js ''s-1'') = js ''s-1''"
  "trim (js ''Tea or coffee?'') = js ''Tea or coffee?''"
  "trim (js ''Stairs or lift?'') = js ''Stairs or lift?''"
  "trim (js ''Map or instinct?'') = js ''Map or instinct?''"
  "trim (js ''Early or late?'') = js ''Early or late?''"
  by (rule trim_id; simp add: js_def isWhiteSpace_def)+

lemma example_question_valid:
  assumes "trim t = t" "t \<noteq> []" "length t \<le> 30" "1 \<le> k"
  shows "normalizeQuestion B (JObj [(js ''id'', JNum (Fin (of_int k))), (js ''text'', JStr t)]) =
    Inr (Some \<lparr>qid = Fin (of_int k), qtext = t\<rparr>)"
proof -
  have k: "js ''text'' \<noteq> js ''id''" by (simp add: js_def)
  show ?thesis
    using assms k
    by (simp add: normalizeQuestion_def isObjectValue_def bindE_def clampText_string)
qed

lemma example_questions_valid:
  "normalizeQuestions exampleBuiltins exampleQuestionsJson = Inr (Some exampleQuestionSet)"
proof -
  have k: "js ''questions'' \<noteq> js ''session_id''" by (simp add: js_def)
  have l: "js ''s-1'' \<noteq> []" "length (js ''s-1'') \<le> 64" by (simp_all add: js_def)
  have q1: "normalizeQuestion exampleBuiltins
      (JObj [(js ''id'', JNum (Fin 1)), (js ''text'', JStr (js ''Tea or coffee?''))]) =
      Inr (Some \<lparr>qid = Fin 1, qtext = js ''Tea or coffee?''\<rparr>)"
    using example_question_valid [of "js ''Tea or coffee?''" 1 exampleBuiltins]
    by (simp add: trim_question_examples) (simp add: js_def)
  have q2: "normalizeQuestion exampleBuiltins
      (JObj [(js ''id'', JNum (Fin 2)), (js ''text'', JStr (js ''Stairs or lift?''))]) =
      Inr (Some \<lparr>qid = Fin 2, qtext = js ''Stairs or lift?''\<rparr>)"
    using example_question_valid [of "js ''Stairs or lift?''" 2 exampleBuiltins]
    by (simp add: trim_question_examples) (simp add: js_def)
  have q3: "normalizeQuestion exampleBuiltins
      (JObj [(js ''id'', JNum (Fin 3)), (js ''text'', JStr (js ''Map or instinct?''))]) =
      Inr (Some \<lparr>qid = Fin 3, qtext = js ''Map or instinct?''\<rparr>)"
    using example_question_valid [of "js ''Map or instinct?''" 3 exampleBuiltins]
    by (simp add: trim_question_examples) (simp add: js_def)
  have q4: "normalizeQuestion exampleBuiltins
      (JObj [(js ''id'', JNum (Fin 4)), (js ''text'', JStr (js ''Early or late?''))]) =
      Inr (Some \<lparr>qid = Fin 4, qtext = js ''Early or late?''\<rparr>)"
    using example_question_valid [of "js ''Early or late?''" 4 exampleBuiltins]
    by (simp add: trim_question_examples) (simp add: js_def)
  show ?thesis
    using k l
    by (simp add: normalizeQuestions_def exampleQuestionsJson_def exampleQuestionSet_def
        isObjectValue_def bindE_def clampText_string trim_question_examples q1 q2 q3 q4)
qed

lemma example_validateQuestions:
  "validateQuestions exampleBuiltins exampleQuestionsJson = Inr exampleQuestionSet"
  by (simp add: validateQuestions_def example_questions_valid)

lemma example_attempts:
  "attemptCard exampleBuiltins exampleCardText = Inr exampleCard"
  "attemptQuestions exampleBuiltins exampleQuestionsText = Inr exampleQuestionSet"
  "attemptCard exampleBuiltins (js ''  '') = Inl (Error (js ''JSON parse failed: empty response''))"
  "attemptCard exampleBuiltins (js ''sorry, no json'') =
     Inl (Error (js ''JSON parse failed: '' @ js ''Unexpected token''))"
proof -
  show "attemptCard exampleBuiltins exampleCardText = Inr exampleCard"
    by (simp add: attemptCard_def parseCard_cases bindE_def trim_example_texts example_texts
        example_parse example_validateCard)
  show "attemptQuestions exampleBuiltins exampleQuestionsText = Inr exampleQuestionSet"
    by (simp add: attemptQuestions_def parseQuestions_cases bindE_def trim_example_texts example_texts
        example_parse example_validateQuestions)
  have "trim (js ''  '') = []" by (simp add: trim_def js_def isWhiteSpace_def)
  then show "attemptCard exampleBuiltins (js ''  '') =
      Inl (Error (js ''JSON parse failed: empty response''))"
    by (simp add: attemptCard_def parseCard_cases bindE_def)
  let ?no = "js ''sorry, no json''"
  have tn: "trim ?no = ?no"
    by (rule trim_id) (simp_all add: isWhiteSpace_def js_def)
  have "123 \<notin> set ?no" by (simp add: js_def)
  then have "\<forall>a b c. ?no \<noteq> a @ 123 # b @ 125 # c" by (rule no_brace_no_span)
  then have x: "extractJsonObject exampleBuiltins ?no = None"
    by (rule extractJsonObject_no_span)
  have ne: "?no \<noteq> []" by (simp add: js_def)
  have pf: "JSON_parse exampleBuiltins ?no = Inl (Error (js ''Unexpected token''))"
    by (rule example_parse(3)) (simp add: js_def)
  show "attemptCard exampleBuiltins ?no =
     Inl (Error (js ''JSON parse failed: '' @ js ''Unexpected token''))"
    by (simp add: attemptCard_def parseCard_cases bindE_def tn x ne pf)
qed

theorem generate_three_attempts_witness:
  "generateCardData exampleBuiltins exampleBackendFailing 0 =
     (Inl (Error (js ''JSON parse failed: '' @ js ''Unexpected token'')), 3) \<and>
   generateCardData exampleBuiltins exampleBackendRecovering 0 = (Inr exampleCard, 2) \<and>
   generateQuestions exampleBuiltins (\<lambda>n. Inr exampleQuestionsText) 0 = (Inr exampleQuestionSet, 1)"
proof -
  let ?e = "Error (js ''JSON parse failed: '' @ js ''Unexpected token'')"
  note T = generate_three_attempts [where B = exampleBuiltins and backend = exampleBackendFailing
      and c = 0 and e = ?e]
  note U = generate_three_attempts [where B = exampleBuiltins and backend = exampleBackendRecovering
      and c = 0]
  note V = generate_three_attempts [where B = exampleBuiltins and backend = "\<lambda>n. Inr exampleQuestionsText"
      and c = 0]
  have a: "bindE (exampleBackendFailing 0) (attemptCard exampleBuiltins) = Inl (Error (js ''Ollama error 500: ''))"
    "bindE (exampleBackendFailing (0 + 1)) (attemptCard exampleBuiltins) =
       Inl (Error (js ''JSON parse failed: empty response''))"
    "bindE (exampleBackendFailing (0 + 2)) (attemptCard exampleBuiltins) = Inl ?e"
    by (simp_all add: exampleBackendFailing_def bindE_def example_attempts)
  have b: "bindE (exampleBackendRecovering 0) (attemptCard exampleBuiltins) = Inl (Error (js ''Ollama error 500: ''))"
    "bindE (exampleBackendRecovering (0 + 1)) (attemptCard exampleBuiltins) = Inr exampleCard"
    by (simp_all add: exampleBackendRecovering_def bindE_def example_attempts)
  have c: "bindE (Inr exampleQuestionsText) (attemptQuestions exampleBuiltins) = Inr exampleQuestionSet"
    by (simp add: bindE_def example_attempts)
  from T have c1: "generateCardData exampleBuiltins exampleBackendFailing 0 = (Inl ?e, 3)"
    unfolding a by simp
  then have "fst (generateCardData exampleBuiltins exampleBackendFailing 0) = Inl ?e" by simp
  with T have "snd (generateCardData exampleBuiltins exampleBackendFailing 0) = 0 + 3" by blast
  from U have c2: "generateCardData exampleBuiltins exampleBackendRecovering 0 = (Inr exampleCard, 2)"
    unfolding b by simp
  from V have c3: "generateQuestions exampleBuiltins (\<lambda>n. Inr exampleQuestionsText) 0 =
      (Inr exampleQuestionSet, 1)"
    unfolding c by simp
  from c1 c2 c3 show ?thesis by (intro conjI)
qed

lemma bindE_eq_Inr: "bindE m f = Inr v \<longleftrightarrow> (\<exists>x. m = Inr x \<and> f x = Inr v)"
  by (cases m) (simp_all add: bindE_def)

lemma bindE_Inr: "bindE (Inr x) f = f x"
  by (simp add: bindE_def)

lemma bindE_Inl: "bindE (Inl e) f = Inl e"
  by (simp add: bindE_def)

lemma valid_stat_iff:
  "(\<not> invalidStat n) = (\<exists>k. n = Fin (of_int k) \<and> 1 \<le> k \<and> k \<le> 100)"
proof (cases n)
  case (Fin r)
  show ?thesis
  proof
    assume a: "\<not> invalidStat n"
    with Fin have "\<exists>k. r = of_int k" and lo: "1 \<le> r" and hi: "r \<le> 100"
      by (simp_all add: invalidStat_def)
    then obtain k where k: "r = of_int k" by blast
    from lo hi have "1 \<le> k" "k \<le> 100" unfolding k by simp_all
    with Fin k show "\<exists>k. n = Fin (of_int k) \<and> 1 \<le> k \<and> k \<le> 100"
      by blast
  next
    assume "\<exists>k. n = Fin (of_int k) \<and> 1 \<le> k \<and> k \<le> 100"
    then obtain k where k: "n = Fin (of_int k)" "1 \<le> k" "k \<le> 100" by blast
    then show "\<not> invalidStat n" by (simp add: invalidStat_def)
  qed
qed (simp_all add: invalidStat_def)

lemma normalizeCardData_accepts:
  assumes "normalizeCardData B raw = Inr (Some crd)"
  shows "\<exists>st. getProp raw (js ''stats'') = Some st \<and>
      toNumber B (getProp st (js ''sense'')) = Inr (sense (stats crd)) \<and>
      toNumber B (getProp st (js ''logic'')) = Inr (logic (stats crd)) \<and>
      toNumber B (getProp st (js ''luck'')) = Inr (luck (stats crd)) \<and>
      toNumber B (getProp st (js ''charm'')) = Inr (charm (stats crd)) \<and>
      toNumber B (getProp st (js ''vibe'')) = Inr (vibe (stats crd)) \<and>
      \<not> invalidStat (sense (stats crd)) \<and> \<not> invalidStat (logic (stats crd)) \<and>
      \<not> invalidStat (luck (stats crd)) \<and> \<not> invalidStat (charm (stats crd)) \<and>
      \<not> invalidStat (vibe (stats crd))"
  using assms
  by (auto simp: normalizeCardData_def bindE_eq_Inr split: if_splits option.splits)

lemma isl_validateCard:
  "(\<forall>c. normalizeCardData B raw \<noteq> Inr (Some c)) \<Longrightarrow> isl (validateCard B raw)"
  by (auto simp: validateCard_def split: sum.splits option.splits)

lemma normalizeCardData_rejects:
  assumes st: "getProp raw (js ''stats'') = Some st" and k: "key \<in> set statKeys"
    and n: "toNumber B (getProp st key) = Inr n" and i: "invalidStat n"
  shows "normalizeCardData B raw \<noteq> Inr (Some c)"
proof
  assume "normalizeCardData B raw = Inr (Some c)"
  from normalizeCardData_accepts [OF this] st
  have a: "toNumber B (getProp st (js ''sense'')) = Inr (sense (stats c))"
      "toNumber B (getProp st (js ''logic'')) = Inr (logic (stats c))"
      "toNumber B (getProp st (js ''luck'')) = Inr (luck (stats c))"
      "toNumber B (getProp st (js ''charm'')) = Inr (charm (stats c))"
      "toNumber B (getProp st (js ''vibe'')) = Inr (vibe (stats c))"
    and v: "\<not> invalidStat (sense (stats c))" "\<not> invalidStat (logic (stats c))"
      "\<not> invalidStat (luck (stats c))" "\<not> invalidStat (charm (stats c))"
      "\<not> invalidStat (vibe (stats c))"
    by auto
  from k have "key = js ''sense'' \<or> key = js ''logic'' \<or> key = js ''luck'' \<or> key = js ''charm'' \<or>
      key = js ''vibe''"
    by (simp add: statKeys_def)
  with a n have "n = sense (stats c) \<or> n = logic (stats c) \<or> n = luck (stats c) \<or>
      n = charm (stats c) \<or> n = vibe (stats c)"
    by auto
  with v i show False by auto
qed

lemma normalizeCardData_valid:
  assumes "isObjectValue (Some raw)"
    and "clampText B (getProp raw (js ''name'')) 12 = Inr nm"
    and "clampText B (getProp raw (js ''class'')) 15 = Inr kl"
    and "clampText B (getProp raw (js ''skill'')) 20 = Inr sk"
    and "clampText B (getProp raw (js ''description'')) 60 = Inr ds"
    and "nm \<noteq> []" "kl \<noteq> []" "sk \<noteq> []" "ds \<noteq> []"
    and "getProp raw (js ''stats'') = Some st" "isObjectValue (Some st)"
    and "toNumber B (getProp st (js ''sense'')) = Inr v1"
    and "toNumber B (getProp st (js ''logic'')) = Inr v2"
    and "toNumber B (getProp st (js ''luck'')) = Inr v3"
    and "toNumber B (getProp st (js ''charm'')) = Inr v4"
    and "toNumber B (getProp st (js ''vibe'')) = Inr v5"
    and "\<not> invalidStat v1" "\<not> invalidStat v2" "\<not> invalidStat v3" "\<not> invalidStat v4"
      "\<not> invalidStat v5"
  shows "normalizeCardData B raw = Inr (Some \<lparr>name = nm, klass = kl,
      stats = \<lparr>sense = v1, logic = v2, luck = v3, charm = v4, vibe = v5\<rparr>,
      skill = sk, description = ds\<rparr>)"
  using assms by (simp add: normalizeCardData_def bindE_Inr)

lemma stat_keys_differ:
  "js ''logic'' \<noteq> js ''sense''" "js ''luck'' \<noteq> js ''sense''" "js ''charm'' \<noteq> js ''sense''"
  "js ''vibe'' \<noteq> js ''sense''" "js ''luck'' \<noteq> js ''logic''" "js ''charm'' \<noteq> js ''logic''"
  "js ''vibe'' \<noteq> js ''logic''" "js ''charm'' \<noteq> js ''luck''" "js ''vibe'' \<noteq> js ''luck''"
  "js ''vibe'' \<noteq> js ''charm''"
  "js ''sense'' \<noteq> js ''logic''" "js ''sense'' \<noteq> js ''luck''" "js ''sense'' \<noteq> js ''charm''"
  "js ''sense'' \<noteq> js ''vibe''" "js ''logic'' \<noteq> js ''luck''" "js ''logic'' \<noteq> js ''charm''"
  "js ''logic'' \<noteq> js ''vibe''" "js ''luck'' \<noteq> js ''charm''" "js ''luck'' \<noteq> js ''vibe''"
  "js ''charm'' \<noteq> js ''vibe''"
  by (simp_all add: js_def)

lemma card_keys_differ:
  "js ''class'' \<noteq> js ''name''" "js ''stats'' \<noteq> js ''name''" "js ''skill'' \<noteq> js ''name''"
  "js ''description'' \<noteq> js ''name''" "js ''stats'' \<noteq> js ''class''" "js ''skill'' \<noteq> js ''class''"
  "js ''description'' \<noteq> js ''class''" "js ''skill'' \<noteq> js ''stats''" "js ''description'' \<noteq> js ''stats''"
  "js ''description'' \<noteq> js ''skill''"
  "js ''name'' \<noteq> js ''class''" "js ''name'' \<noteq> js ''stats''" "js ''name'' \<noteq> js ''skill''"
  "js ''name'' \<noteq> js ''description''" "js ''class'' \<noteq> js ''stats''" "js ''class'' \<noteq> js ''skill''"
  "js ''class'' \<noteq> js ''description''" "js ''stats'' \<noteq> js ''skill''" "js ''stats'' \<noteq> js ''description''"
  "js ''skill'' \<noteq> js ''description''"
  by (simp_all add: js_def)

lemma example_card_fields:
  "isObjectValue (Some (exampleCardJsonStats kvs))"
  "clampText B (getProp (exampleCardJsonStats kvs) (js ''name'')) 12 = Inr (js ''Nova'')"
  "clampText B (getProp (exampleCardJsonStats kvs) (js ''class'')) 15 = Inr (js ''Echo Rider'')"
  "clampText B (getProp (exampleCardJsonStats kvs) (js ''skill'')) 20 = Inr (js ''Photon Step'')"
  "clampText B (getProp (exampleCardJsonStats kvs) (js ''description'')) 60 =
     Inr (js ''Reads the room and moves first.'')"
  "getProp (exampleCardJsonStats kvs) (js ''stats'') = Some (JObj kvs)"
  "isObjectValue (Some (JObj kvs))"
  "js ''Nova'' \<noteq> []" "js ''Echo Rider'' \<noteq> []" "js ''Photon Step'' \<noteq> []"
  "js ''Reads the room and moves first.'' \<noteq> []"
proof -
  have l: "length (js ''Nova'') \<le> 12" "length (js ''Echo Rider'') \<le> 15"
    "length (js ''Photon Step'') \<le> 20" "length (js ''Reads the room and moves first.'') \<le> 60"
    by (simp_all add: js_def)
  show "isObjectValue (Some (exampleCardJsonStats kvs))"
    by (simp add: exampleCardJsonStats_def isObjectValue_def)
  show "clampText B (getProp (exampleCardJsonStats kvs) (js ''name'')) 12 = Inr (js ''Nova'')"
    using l by (simp add: exampleCardJsonStats_def clampText_string trim_examples)
  show "clampText B (getProp (exampleCardJsonStats kvs) (js ''class'')) 15 = Inr (js ''Echo Rider'')"
    using l by (simp add: exampleCardJsonStats_def clampText_string trim_examples card_keys_differ)
  show "clampText B (getProp (exampleCardJsonStats kvs) (js ''skill'')) 20 = Inr (js ''Photon Step'')"
    using l by (simp add: exampleCardJsonStats_def clampText_string trim_examples card_keys_differ)
  show "clampText B (getProp (exampleCardJsonStats kvs) (js ''description'')) 60 =
     Inr (js ''Reads the room and moves first.'')"
    using l by (simp add: exampleCardJsonStats_def clampText_string trim_examples card_keys_differ)
  show "getProp (exampleCardJsonStats kvs) (js ''stats'') = Some (JObj kvs)"
    by (simp add: exampleCardJsonStats_def card_keys_differ)
  show "isObjectValue (Some (JObj kvs))" by (simp add: isObjectValue_def)
  show "js ''Nova'' \<noteq> []" "js ''Echo Rider'' \<noteq> []" "js ''Photon Step'' \<noteq> []"
    "js ''Reads the room and moves first.'' \<noteq> []"
    by (simp_all add: js_def)
qed

lemma isInteger_Fin_iff: "isInteger (Fin r) \<longleftrightarrow> r \<in> \<int>"
proof
  assume "isInteger (Fin r)"
  then have "r = of_int \<lfloor>r\<rfloor>" by (simp del: of_int_floor_cancel)
  then show "r \<in> \<int>" by (metis Ints_of_int)
next
  assume "r \<in> \<int>"
  then show "isInteger (Fin r)" by (auto elim: Ints_cases)
qed

lemma invalid_stat_examples:
  "invalidStat NaN" "invalidStat (Fin 0)" "invalidStat (Fin 101)" "invalidStat (Fin (7 / 2))"
proof -
  show "invalidStat NaN" "invalidStat (Fin 0)" "invalidStat (Fin 101)"
    by (simp_all add: invalidStat_def)
  have "(7 / 2 :: rat) \<notin> \<int>" by simp
  then show "invalidStat (Fin (7 / 2))"
    unfolding invalidStat_def isInteger_Fin_iff by simp
qed

lemma example_other_stats:
  "toNumber B (getProp (JObj ((js ''sense'', v) # exampleOtherStats)) (js ''sense'')) = toNumber B (Some v)"
  "toNumber B (getProp (JObj ((js ''sense'', v) # exampleOtherStats)) (js ''logic'')) = Inr (Fin 72)"
  "toNumber B (getProp (JObj ((js ''sense'', v) # exampleOtherStats)) (js ''luck'')) = Inr (Fin 40)"
  "toNumber B (getProp (JObj ((js ''sense'', v) # exampleOtherStats)) (js ''charm'')) = Inr (Fin 65)"
  "toNumber B (getProp (JObj ((js ''sense'', v) # exampleOtherStats)) (js ''vibe'')) = Inr (Fin 91)"
  "getProp (JObj exampleOtherStats) (js ''sense'') = None"
  "\<not> invalidStat (Fin 72)" "\<not> invalidStat (Fin 40)" "\<not> invalidStat (Fin 65)" "\<not> invalidStat (Fin 91)"
  by (simp_all add: exampleOtherStats_def stat_keys_differ invalidStat_def)

lemma example_card_with_sense:
  assumes "toNumber exampleBuiltins (Some v) = Inr n" "\<not> invalidStat n"
  shows "validateCard exampleBuiltins (exampleCardJsonStats ((js ''sense'', v) # exampleOtherStats)) =
    Inr (exampleCard\<lparr>stats := (stats exampleCard)\<lparr>sense := n\<rparr>\<rparr>)"
proof -
  have s: "toNumber exampleBuiltins (getProp (JObj ((js ''sense'', v) # exampleOtherStats)) (js ''sense'')) = Inr n"
    unfolding example_other_stats using assms(1) .
  have "normalizeCardData exampleBuiltins (exampleCardJsonStats ((js ''sense'', v) # exampleOtherStats)) =
      Inr (Some \<lparr>name = js ''Nova'', klass = js ''Echo Rider'',
        stats = \<lparr>sense = n, logic = Fin 72, luck = Fin 40, charm = Fin 65, vibe = Fin 91\<rparr>,
        skill = js ''Photon Step'', description = js ''Reads the room and moves first.''\<rparr>)"
    by (rule normalizeCardData_valid [OF example_card_fields(1-5) example_card_fields(8-11)
          example_card_fields(6,7) s example_other_stats(2-5) assms(2) example_other_stats(7-10)])
  then show ?thesis
    by (simp add: validateCard_def exampleCard_def)
qed

text \<open>
  Claim C6 as stated fails where it says that a stat of the wrong type is rejected:
  the stat \<^verbatim>\<open>true\<close> coerces to 1 and the string \<^verbatim>\<open>"50"\<close> to 50, and both candidates are
  accepted.
\<close>

theorem wrong_type_stat_accepted:
  "validateCard exampleBuiltins
     (exampleCardJsonStats ((js ''sense'', JBool True) # exampleOtherStats)) =
     Inr (exampleCard\<lparr>stats := (stats exampleCard)\<lparr>sense := Fin 1\<rparr>\<rparr>) \<and>
   validateCard exampleBuiltins
     (exampleCardJsonStats ((js ''sense'', JStr (js ''50'')) # exampleOtherStats)) =
     Inr (exampleCard\<lparr>stats := (stats exampleCard)\<lparr>sense := Fin 50\<rparr>\<rparr>)"
proof
  have "toNumber exampleBuiltins (Some (JBool True)) = Inr (Fin 1)" by simp
  moreover have "\<not> invalidStat (Fin 1)" by (simp add: invalidStat_def)
  ultimately show "validateCard exampleBuiltins
     (exampleCardJsonStats ((js ''sense'', JBool True) # exampleOtherStats)) =
     Inr (exampleCard\<lparr>stats := (stats exampleCard)\<lparr>sense := Fin 1\<rparr>\<rparr>)"
    by (rule example_card_with_sense)
  have "toNumber exampleBuiltins (Some (JStr (js ''50''))) = Inr (Fin 50)"
    by (simp add: exampleBuiltins_def)
  moreover have "\<not> invalidStat (Fin 50)" by (simp add: invalidStat_def)
  ultimately show "validateCard exampleBuiltins
     (exampleCardJsonStats ((js ''sense'', JStr (js ''50'')) # exampleOtherStats)) =
     Inr (exampleCard\<lparr>stats := (stats exampleCard)\<lparr>sense := Fin 50\<rparr>\<rparr>)"
    by (rule example_card_with_sense)
qed

section \<open>The claim of the next job\<close>








section \<open>Acceptance of a generated card\<close>

lemma normalizeCardData_accepts_texts:
  assumes "normalizeCardData B raw = Inr (Some crd)"
  shows "isObjectValue (Some raw) \<and>
    clampText B (getProp raw (js ''name'')) 12 = Inr (name crd) \<and>
    clampText B (getProp raw (js ''class'')) 15 = Inr (klass crd) \<and>
    clampText B (getProp raw (js ''skill'')) 20 = Inr (skill crd) \<and>
    clampText B (getProp raw (js ''description'')) 60 = Inr (description crd) \<and>
    name crd \<noteq> [] \<and> klass crd \<noteq> [] \<and> skill crd \<noteq> [] \<and> description crd \<noteq> [] \<and>
    isObjectValue (getProp raw (js ''stats''))"
  using assms
  by (auto simp: normalizeCardData_def bindE_eq_Inr split: if_splits option.splits)

lemma validateCard_Inr_iff:
  "(validateCard B raw = Inr crd) = (normalizeCardData B raw = Inr (Some crd))"
  by (auto simp: validateCard_def split: sum.splits option.splits)

lemma card_accepted_iff:
  "(normalizeCardData B raw = Inr (Some crd)) =
     (isObjectValue (Some raw) \<and>
      clampText B (getProp raw (js ''name'')) 12 = Inr (name crd) \<and> name crd \<noteq> [] \<and>
      clampText B (getProp raw (js ''class'')) 15 = Inr (klass crd) \<and> klass crd \<noteq> [] \<and>
      clampText B (getProp raw (js ''skill'')) 20 = Inr (skill crd) \<and> skill crd \<noteq> [] \<and>
      clampText B (getProp raw (js ''description'')) 60 = Inr (description crd) \<and>
      description crd \<noteq> [] \<and>
      (\<exists>st. getProp raw (js ''stats'') = Some st \<and> isObjectValue (Some st) \<and>
         toNumber B (getProp st (js ''sense'')) = Inr (sense (stats crd)) \<and>
         toNumber B (getProp st (js ''logic'')) = Inr (logic (stats crd)) \<and>
         toNumber B (getProp st (js ''luck'')) = Inr (luck (stats crd)) \<and>
         toNumber B (getProp st (js ''charm'')) = Inr (charm (stats crd)) \<and>
         toNumber B (getProp st (js ''vibe'')) = Inr (vibe (stats crd))) \<and>
      (\<forall>v\<in>set [sense (stats crd), logic (stats crd), luck (stats crd), charm (stats crd),
                 vibe (stats crd)]. \<exists>k. v = Fin (of_int k) \<and> 1 \<le> k \<and> k \<le> 100))"
proof
  assume a: "normalizeCardData B raw = Inr (Some crd)"
  note t = normalizeCardData_accepts_texts [OF a]
  from normalizeCardData_accepts [OF a] obtain st where
    st: "getProp raw (js ''stats'') = Some st"
    and n: "toNumber B (getProp st (js ''sense'')) = Inr (sense (stats crd))"
      "toNumber B (getProp st (js ''logic'')) = Inr (logic (stats crd))"
      "toNumber B (getProp st (js ''luck'')) = Inr (luck (stats crd))"
      "toNumber B (getProp st (js ''charm'')) = Inr (charm (stats crd))"
      "toNumber B (getProp st (js ''vibe'')) = Inr (vibe (stats crd))"
    and v: "\<not> invalidStat (sense (stats crd))" "\<not> invalidStat (logic (stats crd))"
      "\<not> invalidStat (luck (stats crd))" "\<not> invalidStat (charm (stats crd))"
      "\<not> invalidStat (vibe (stats crd))"
    by blast
  from t st have o: "isObjectValue (Some st)" by simp
  from v have r: "\<forall>v\<in>set [sense (stats crd), logic (stats crd), luck (stats crd), charm (stats crd),
      vibe (stats crd)]. \<exists>k. v = Fin (of_int k) \<and> 1 \<le> k \<and> k \<le> 100"
    unfolding valid_stat_iff by simp
  from st o n have e: "\<exists>st. getProp raw (js ''stats'') = Some st \<and> isObjectValue (Some st) \<and>
         toNumber B (getProp st (js ''sense'')) = Inr (sense (stats crd)) \<and>
         toNumber B (getProp st (js ''logic'')) = Inr (logic (stats crd)) \<and>
         toNumber B (getProp st (js ''luck'')) = Inr (luck (stats crd)) \<and>
         toNumber B (getProp st (js ''charm'')) = Inr (charm (stats crd)) \<and>
         toNumber B (getProp st (js ''vibe'')) = Inr (vibe (stats crd))"
    by blast
  from t e r show "isObjectValue (Some raw) \<and>
      clampText B (getProp raw (js ''name'')) 12 = Inr (name crd) \<and> name crd \<noteq> [] \<and>
      clampText B (getProp raw (js ''class'')) 15 = Inr (klass crd) \<and> klass crd \<noteq> [] \<and>
      clampText B (getProp raw (js ''skill'')) 20 = Inr (skill crd) \<and> skill crd \<noteq> [] \<and>
      clampText B (getProp raw (js ''description'')) 60 = Inr (description crd) \<and>
      description crd \<noteq> [] \<and>
      (\<exists>st. getProp raw (js ''stats'') = Some st \<and> isObjectValue (Some st) \<and>
         toNumber B (getProp st (js ''sense'')) = Inr (sense (stats crd)) \<and>
         toNumber B (getProp st (js ''logic'')) = Inr (logic (stats crd)) \<and>
         toNumber B (getProp st (js ''luck'')) = Inr (luck (stats crd)) \<and>
         toNumber B (getProp st (js ''charm'')) = Inr (charm (stats crd)) \<and>
         toNumber B (getProp st (js ''vibe'')) = Inr (vibe (stats crd))) \<and>
      (\<forall>v\<in>set [sense (stats crd), logic (stats crd), luck (stats crd), charm (stats crd),
                 vibe (stats crd)]. \<exists>k. v = Fin (of_int k) \<and> 1 \<le> k \<and> k \<le> 100)"
    by blast
next
  assume a: "isObjectValue (Some raw) \<and>
      clampText B (getProp raw (js ''name'')) 12 = Inr (name crd) \<and> name crd \<noteq> [] \<and>
      clampText B (getProp raw (js ''class'')) 15 = Inr (klass crd) \<and> klass crd \<noteq> [] \<and>
      clampText B (getProp raw (js ''skill'')) 20 = Inr (skill crd) \<and> skill crd \<noteq> [] \<and>
      clampText B (getProp raw (js ''description'')) 60 = Inr (description crd) \<and>
      description crd \<noteq> [] \<and>
      (\<exists>st. getProp raw (js ''stats'') = Some st \<and> isObjectValue (Some st) \<and>
         toNumber B (getProp st (js ''sense'')) = Inr (sense (stats crd)) \<and>
         toNumber B (getProp st (js ''logic'')) = Inr (logic (stats crd)) \<and>
         toNumber B (getProp st (js ''luck'')) = Inr (luck (stats crd)) \<and>
         toNumber B (getProp st (js ''charm'')) = Inr (charm (stats crd)) \<and>
         toNumber B (getProp st (js ''vibe'')) = Inr (vibe (stats crd))) \<and>
      (\<forall>v\<in>set [sense (stats crd), logic (stats crd), luck (stats crd), charm (stats crd),
                 vibe (stats crd)]. \<exists>k. v = Fin (of_int k) \<and> 1 \<le> k \<and> k \<le> 100)"
  from a have a0: "isObjectValue (Some raw)" by (rule conjunct1)
  from a have a1: "clampText B (getProp raw (js ''name'')) 12 = Inr (name crd)" by blast
  from a have a2: "clampText B (getProp raw (js ''class'')) 15 = Inr (klass crd)" by blast
  from a have a3: "clampText B (getProp raw (js ''skill'')) 20 = Inr (skill crd)" by blast
  from a have a4: "clampText B (getProp raw (js ''description'')) 60 = Inr (description crd)" by blast
  from a have a5: "name crd \<noteq> []" and a6: "klass crd \<noteq> []" and a7: "skill crd \<noteq> []"
    and a8: "description crd \<noteq> []"
    by blast+
  from a obtain st where st: "getProp raw (js ''stats'') = Some st" and o: "isObjectValue (Some st)"
    and n: "toNumber B (getProp st (js ''sense'')) = Inr (sense (stats crd))"
      "toNumber B (getProp st (js ''logic'')) = Inr (logic (stats crd))"
      "toNumber B (getProp st (js ''luck'')) = Inr (luck (stats crd))"
      "toNumber B (getProp st (js ''charm'')) = Inr (charm (stats crd))"
      "toNumber B (getProp st (js ''vibe'')) = Inr (vibe (stats crd))"
    by blast
  from a have r: "\<forall>v\<in>set [sense (stats crd), logic (stats crd), luck (stats crd), charm (stats crd),
      vibe (stats crd)]. \<exists>k. v = Fin (of_int k) \<and> 1 \<le> k \<and> k \<le> 100"
    by blast
  then have v: "\<not> invalidStat (sense (stats crd))" "\<not> invalidStat (logic (stats crd))"
      "\<not> invalidStat (luck (stats crd))" "\<not> invalidStat (charm (stats crd))"
      "\<not> invalidStat (vibe (stats crd))"
    unfolding valid_stat_iff by simp_all
  have "normalizeCardData B raw = Inr (Some \<lparr>name = name crd, klass = klass crd,
      stats = \<lparr>sense = sense (stats crd), logic = logic (stats crd), luck = luck (stats crd),
               charm = charm (stats crd), vibe = vibe (stats crd)\<rparr>,
      skill = skill crd, description = description crd\<rparr>)"
    by (rule normalizeCardData_valid [OF a0 a1 a2 a3 a4 a5 a6 a7 a8 st o n v])
  then show "normalizeCardData B raw = Inr (Some crd)" by simp
qed

text \<open>
  Claim C6, as amended. \<^verbatim>\<open>normalizeCardData\<close> accepts a candidate with a card exactly when
  the candidate is an object, its four texts are non-empty after trimming and clamping, its
  \<^verbatim>\<open>stats\<close> is an object, and each of the five stats, coerced with \<^verbatim>\<open>Number\<close>, is an exact
  integer from 1 to 100; the card holds the coerced values, unrounded, and the attempt
  fails exactly when the candidate is not accepted. So a candidate one of whose stats
  coerces to anything else is rejected, whatever the type of the stat: a missing stat (it
  coerces to \<open>NaN\<close>), 0, 101 and 3.5. And a candidate whose stats coerce to integers from
  1 to 100 is accepted, whatever the types of the stats, where \<^verbatim>\<open>Number\<close> maps a missing
  value to \<open>NaN\<close>, \<^verbatim>\<open>null\<close> to 0, \<^verbatim>\<open>false\<close> to 0, \<^verbatim>\<open>true\<close> to 1, a number to itself, a
  string to its numeric value and an array or an object to the numeric value of its
  string: a stat of another type than number is rejected only when its coercion is not
  such an integer.
\<close>

theorem card_accepted_iff_coerced_stats:
  "((normalizeCardData B raw = Inr (Some crd)) =
     (isObjectValue (Some raw) \<and>
      clampText B (getProp raw (js ''name'')) 12 = Inr (name crd) \<and> name crd \<noteq> [] \<and>
      clampText B (getProp raw (js ''class'')) 15 = Inr (klass crd) \<and> klass crd \<noteq> [] \<and>
      clampText B (getProp raw (js ''skill'')) 20 = Inr (skill crd) \<and> skill crd \<noteq> [] \<and>
      clampText B (getProp raw (js ''description'')) 60 = Inr (description crd) \<and>
      description crd \<noteq> [] \<and>
      (\<exists>st. getProp raw (js ''stats'') = Some st \<and> isObjectValue (Some st) \<and>
         toNumber B (getProp st (js ''sense'')) = Inr (sense (stats crd)) \<and>
         toNumber B (getProp st (js ''logic'')) = Inr (logic (stats crd)) \<and>
         toNumber B (getProp st (js ''luck'')) = Inr (luck (stats crd)) \<and>
         toNumber B (getProp st (js ''charm'')) = Inr (charm (stats crd)) \<and>
         toNumber B (getProp st (js ''vibe'')) = Inr (vibe (stats crd))) \<and>
      (\<forall>v\<in>set [sense (stats crd), logic (stats crd), luck (stats crd), charm (stats crd),
                 vibe (stats crd)]. \<exists>k. v = Fin (of_int k) \<and> 1 \<le> k \<and> k \<le> 100))) \<and>
   (validateCard B raw = Inr crd) = (normalizeCardData B raw = Inr (Some crd)) \<and>
   isl (validateCard B raw) = (\<forall>c. normalizeCardData B raw \<noteq> Inr (Some c)) \<and>
   (getProp raw (js ''stats'') = Some st \<and> key \<in> set statKeys \<and>
    toNumber B (getProp st key) = Inr n \<and> \<not> (\<exists>k. n = Fin (of_int k) \<and> 1 \<le> k \<and> k \<le> 100) \<longrightarrow>
      (\<forall>c. normalizeCardData B raw \<noteq> Inr (Some c)) \<and> isl (validateCard B raw)) \<and>
   (getProp raw (js ''stats'') = Some st \<and> key \<in> set statKeys \<and>
    getProp st key \<in> {None, Some (JNum (Fin 0)), Some (JNum (Fin 101)), Some (JNum (Fin (7 / 2)))} \<longrightarrow>
      isl (validateCard B raw)) \<and>
   (isObjectValue (Some raw) \<and>
    clampText B (getProp raw (js ''name'')) 12 = Inr nm \<and>
    clampText B (getProp raw (js ''class'')) 15 = Inr kl \<and>
    clampText B (getProp raw (js ''skill'')) 20 = Inr sk \<and>
    clampText B (getProp raw (js ''description'')) 60 = Inr ds \<and>
    nm \<noteq> [] \<and> kl \<noteq> [] \<and> sk \<noteq> [] \<and> ds \<noteq> [] \<and>
    getProp raw (js ''stats'') = Some st \<and> isObjectValue (Some st) \<and>
    toNumber B (getProp st (js ''sense'')) = Inr (Fin (of_int k1)) \<and>
    toNumber B (getProp st (js ''logic'')) = Inr (Fin (of_int k2)) \<and>
    toNumber B (getProp st (js ''luck'')) = Inr (Fin (of_int k3)) \<and>
    toNumber B (getProp st (js ''charm'')) = Inr (Fin (of_int k4)) \<and>
    toNumber B (getProp st (js ''vibe'')) = Inr (Fin (of_int k5)) \<and>
    (\<forall>k\<in>set [k1, k2, k3, k4, k5]. 1 \<le> k \<and> k \<le> 100) \<longrightarrow>
      validateCard B raw = Inr \<lparr>name = nm, klass = kl,
        stats = \<lparr>sense = Fin (of_int k1), logic = Fin (of_int k2), luck = Fin (of_int k3),
                 charm = Fin (of_int k4), vibe = Fin (of_int k5)\<rparr>,
        skill = sk, description = ds\<rparr>) \<and>
   toNumber B None = Inr NaN \<and> toNumber B (Some JNull) = Inr (Fin 0) \<and>
   toNumber B (Some (JBool b)) = Inr (Fin (if b then 1 else 0)) \<and>
   toNumber B (Some (JNum x)) = Inr x \<and>
   toNumber B (Some (JStr s)) = Inr (StringToNumber B s) \<and>
   toNumber B (Some (JArr xs)) =
     (case toStringJ B (JArr xs) of Inl e \<Rightarrow> Inl e | Inr t \<Rightarrow> Inr (StringToNumber B t)) \<and>
   toNumber B (Some (JObj kvs)) =
     (case toStringJ B (JObj kvs) of Inl e \<Rightarrow> Inl e | Inr t \<Rightarrow> Inr (StringToNumber B t))"
proof (intro conjI impI)
  show "(normalizeCardData B raw = Inr (Some crd)) =
     (isObjectValue (Some raw) \<and>
      clampText B (getProp raw (js ''name'')) 12 = Inr (name crd) \<and> name crd \<noteq> [] \<and>
      clampText B (getProp raw (js ''class'')) 15 = Inr (klass crd) \<and> klass crd \<noteq> [] \<and>
      clampText B (getProp raw (js ''skill'')) 20 = Inr (skill crd) \<and> skill crd \<noteq> [] \<and>
      clampText B (getProp raw (js ''description'')) 60 = Inr (description crd) \<and>
      description crd \<noteq> [] \<and>
      (\<exists>st. getProp raw (js ''stats'') = Some st \<and> isObjectValue (Some st) \<and>
         toNumber B (getProp st (js ''sense'')) = Inr (sense (stats crd)) \<and>
         toNumber B (getProp st (js ''logic'')) = Inr (logic (stats crd)) \<and>
         toNumber B (getProp st (js ''luck'')) = Inr (luck (stats crd)) \<and>
         toNumber B (getProp st (js ''charm'')) = Inr (charm (stats crd)) \<and>
         toNumber B (getProp st (js ''vibe'')) = Inr (vibe (stats crd))) \<and>
      (\<forall>v\<in>set [sense (stats crd), logic (stats crd), luck (stats crd), charm (stats crd),
                 vibe (stats crd)]. \<exists>k. v = Fin (of_int k) \<and> 1 \<le> k \<and> k \<le> 100))"
    by (rule card_accepted_iff)
  show "(validateCard B raw = Inr crd) = (normalizeCardData B raw = Inr (Some crd))"
    by (rule validateCard_Inr_iff)
  show "isl (validateCard B raw) = (\<forall>c. normalizeCardData B raw \<noteq> Inr (Some c))"
    by (auto simp: validateCard_def split: sum.splits option.splits)
  show "toNumber B None = Inr NaN" "toNumber B (Some JNull) = Inr (Fin 0)"
    "toNumber B (Some (JBool b)) = Inr (Fin (if b then 1 else 0))"
    "toNumber B (Some (JNum x)) = Inr x"
    "toNumber B (Some (JStr s)) = Inr (StringToNumber B s)"
    by simp_all
  show "toNumber B (Some (JArr xs)) =
     (case toStringJ B (JArr xs) of Inl e \<Rightarrow> Inl e | Inr t \<Rightarrow> Inr (StringToNumber B t))"
    by (simp only: toNumber.simps)
  show "toNumber B (Some (JObj kvs)) =
     (case toStringJ B (JObj kvs) of Inl e \<Rightarrow> Inl e | Inr t \<Rightarrow> Inr (StringToNumber B t))"
    by (simp only: toNumber.simps)
next
  assume a: "getProp raw (js ''stats'') = Some st \<and> key \<in> set statKeys \<and>
    toNumber B (getProp st key) = Inr n \<and> \<not> (\<exists>k. n = Fin (of_int k) \<and> 1 \<le> k \<and> k \<le> 100)"
  then have i: "invalidStat n" using valid_stat_iff [of n] by blast
  from a i show r: "\<forall>c. normalizeCardData B raw \<noteq> Inr (Some c)"
    using normalizeCardData_rejects by blast
  then show "isl (validateCard B raw)" by (rule isl_validateCard)
next
  assume a: "getProp raw (js ''stats'') = Some st \<and> key \<in> set statKeys \<and>
    getProp st key \<in> {None, Some (JNum (Fin 0)), Some (JNum (Fin 101)), Some (JNum (Fin (7 / 2)))}"
  then have "\<exists>n. toNumber B (getProp st key) = Inr n \<and> invalidStat n"
    using invalid_stat_examples by auto
  then obtain n where "toNumber B (getProp st key) = Inr n" "invalidStat n" by blast
  with a have "\<forall>c. normalizeCardData B raw \<noteq> Inr (Some c)"
    using normalizeCardData_rejects by blast
  then show "isl (validateCard B raw)" by (rule isl_validateCard)
next
  assume a: "isObjectValue (Some raw) \<and>
    clampText B (getProp raw (js ''name'')) 12 = Inr nm \<and>
    clampText B (getProp raw (js ''class'')) 15 = Inr kl \<and>
    clampText B (getProp raw (js ''skill'')) 20 = Inr sk \<and>
    clampText B (getProp raw (js ''description'')) 60 = Inr ds \<and>
    nm \<noteq> [] \<and> kl \<noteq> [] \<and> sk \<noteq> [] \<and> ds \<noteq> [] \<and>
    getProp raw (js ''stats'') = Some st \<and> isObjectValue (Some st) \<and>
    toNumber B (getProp st (js ''sense'')) = Inr (Fin (of_int k1)) \<and>
    toNumber B (getProp st (js ''logic'')) = Inr (Fin (of_int k2)) \<and>
    toNumber B (getProp st (js ''luck'')) = Inr (Fin (of_int k3)) \<and>
    toNumber B (getProp st (js ''charm'')) = Inr (Fin (of_int k4)) \<and>
    toNumber B (getProp st (js ''vibe'')) = Inr (Fin (of_int k5)) \<and>
    (\<forall>k\<in>set [k1, k2, k3, k4, k5]. 1 \<le> k \<and> k \<le> 100)"
  from a have a0: "isObjectValue (Some raw)" by (rule conjunct1)
  from a have a1: "clampText B (getProp raw (js ''name'')) 12 = Inr nm" by blast
  from a have a2: "clampText B (getProp raw (js ''class'')) 15 = Inr kl" by blast
  from a have a3: "clampText B (getProp raw (js ''skill'')) 20 = Inr sk" by blast
  from a have a4: "clampText B (getProp raw (js ''description'')) 60 = Inr ds" by blast
  from a have a5: "nm \<noteq> []" and a6: "kl \<noteq> []" and a7: "sk \<noteq> []" and a8: "ds \<noteq> []"
    by blast+
  from a have a9: "getProp raw (js ''stats'') = Some st" and o: "isObjectValue (Some st)" by blast+
  from a have n: "toNumber B (getProp st (js ''sense'')) = Inr (Fin (of_int k1))"
    "toNumber B (getProp st (js ''logic'')) = Inr (Fin (of_int k2))"
    "toNumber B (getProp st (js ''luck'')) = Inr (Fin (of_int k3))"
    "toNumber B (getProp st (js ''charm'')) = Inr (Fin (of_int k4))"
    "toNumber B (getProp st (js ''vibe'')) = Inr (Fin (of_int k5))"
    by blast+
  from a have "\<forall>k\<in>set [k1, k2, k3, k4, k5]. 1 \<le> k \<and> k \<le> 100" by blast
  then have v: "\<not> invalidStat (Fin (of_int k1))" "\<not> invalidStat (Fin (of_int k2))"
    "\<not> invalidStat (Fin (of_int k3))" "\<not> invalidStat (Fin (of_int k4))"
    "\<not> invalidStat (Fin (of_int k5))"
    unfolding valid_stat_iff by auto
  have "normalizeCardData B raw = Inr (Some \<lparr>name = nm, klass = kl,
        stats = \<lparr>sense = Fin (of_int k1), logic = Fin (of_int k2), luck = Fin (of_int k3),
                 charm = Fin (of_int k4), vibe = Fin (of_int k5)\<rparr>,
        skill = sk, description = ds\<rparr>)"
    by (rule normalizeCardData_valid [OF a0 a1 a2 a3 a4 a5 a6 a7 a8 a9 o n v])
  then show "validateCard B raw = Inr \<lparr>name = nm, klass = kl,
        stats = \<lparr>sense = Fin (of_int k1), logic = Fin (of_int k2), luck = Fin (of_int k3),
                 charm = Fin (of_int k4), vibe = Fin (of_int k5)\<rparr>,
        skill = sk, description = ds\<rparr>"
    by (simp add: validateCard_def)
qed

theorem card_accepted_iff_coerced_stats_witness:
  "isl (validateCard exampleBuiltins (exampleCardJsonStats ((js ''sense'', JNum (Fin 0)) # exampleOtherStats))) \<and>
   isl (validateCard exampleBuiltins (exampleCardJsonStats ((js ''sense'', JNum (Fin 101)) # exampleOtherStats))) \<and>
   isl (validateCard exampleBuiltins (exampleCardJsonStats ((js ''sense'', JNum (Fin (7 / 2))) # exampleOtherStats))) \<and>
   isl (validateCard exampleBuiltins (exampleCardJsonStats exampleOtherStats)) \<and>
   isl (validateCard exampleBuiltins (exampleCardJsonStats ((js ''sense'', JBool False) # exampleOtherStats))) \<and>
   isl (validateCard exampleBuiltins (exampleCardJsonStats ((js ''sense'', JStr (js ''high'')) # exampleOtherStats))) \<and>
   validateCard exampleBuiltins (exampleCardJsonStats ((js ''sense'', JNum (Fin 80)) # exampleOtherStats)) =
     Inr exampleCard \<and>
   validateCard exampleBuiltins (exampleCardJsonStats ((js ''sense'', JBool True) # exampleOtherStats)) =
     Inr (exampleCard\<lparr>stats := (stats exampleCard)\<lparr>sense := Fin 1\<rparr>\<rparr>) \<and>
   validateCard exampleBuiltins (exampleCardJsonStats ((js ''sense'', JStr (js ''50'')) # exampleOtherStats)) =
     Inr (exampleCard\<lparr>stats := (stats exampleCard)\<lparr>sense := Fin 50\<rparr>\<rparr>) \<and>
   normalizeCardData exampleBuiltins
     (exampleCardJsonStats ((js ''sense'', JNum (Fin 80)) # exampleOtherStats)) = Inr (Some exampleCard) \<and>
   (\<exists>k. sense (stats exampleCard) = Fin (of_int k) \<and> 1 \<le> k \<and> k \<le> 100)"
proof -
  let ?c = "\<lambda>v. exampleCardJsonStats ((js ''sense'', v) # exampleOtherStats)"
  let ?s = "\<lambda>v. JObj ((js ''sense'', v) # exampleOtherStats)"
  have key: "js ''sense'' \<in> set statKeys" by (simp add: statKeys_def)
  have st: "\<And>v. getProp (?c v) (js ''stats'') = Some (?s v)"
    by (rule example_card_fields(6))
  have g: "\<And>v. getProp (?s v) (js ''sense'') = Some v"
    by simp
  have h1: "getProp (?c (JNum (Fin 0))) (js ''stats'') = Some (?s (JNum (Fin 0))) \<and>
      js ''sense'' \<in> set statKeys \<and>
      getProp (?s (JNum (Fin 0))) (js ''sense'') \<in>
        {None, Some (JNum (Fin 0)), Some (JNum (Fin 101)), Some (JNum (Fin (7 / 2)))}"
    unfolding g st using key by simp
  have c1: "isl (validateCard exampleBuiltins (?c (JNum (Fin 0))))"
    by (rule card_accepted_iff_coerced_stats [where B = exampleBuiltins and raw = "?c (JNum (Fin 0))"
        and st = "?s (JNum (Fin 0))" and key = "js ''sense''",
        THEN conjunct2, THEN conjunct2, THEN conjunct2, THEN conjunct2, THEN conjunct1, THEN mp, OF h1])
  have h2: "getProp (?c (JNum (Fin 101))) (js ''stats'') = Some (?s (JNum (Fin 101))) \<and>
      js ''sense'' \<in> set statKeys \<and>
      getProp (?s (JNum (Fin 101))) (js ''sense'') \<in>
        {None, Some (JNum (Fin 0)), Some (JNum (Fin 101)), Some (JNum (Fin (7 / 2)))}"
    unfolding g st using key by simp
  have c2: "isl (validateCard exampleBuiltins (?c (JNum (Fin 101))))"
    by (rule card_accepted_iff_coerced_stats [where B = exampleBuiltins and raw = "?c (JNum (Fin 101))"
        and st = "?s (JNum (Fin 101))" and key = "js ''sense''",
        THEN conjunct2, THEN conjunct2, THEN conjunct2, THEN conjunct2, THEN conjunct1, THEN mp, OF h2])
  have h3: "getProp (?c (JNum (Fin (7 / 2)))) (js ''stats'') = Some (?s (JNum (Fin (7 / 2)))) \<and>
      js ''sense'' \<in> set statKeys \<and>
      getProp (?s (JNum (Fin (7 / 2)))) (js ''sense'') \<in>
        {None, Some (JNum (Fin 0)), Some (JNum (Fin 101)), Some (JNum (Fin (7 / 2)))}"
    unfolding g st using key by simp
  have c3: "isl (validateCard exampleBuiltins (?c (JNum (Fin (7 / 2)))))"
    by (rule card_accepted_iff_coerced_stats [where B = exampleBuiltins and raw = "?c (JNum (Fin (7 / 2)))"
        and st = "?s (JNum (Fin (7 / 2)))" and key = "js ''sense''",
        THEN conjunct2, THEN conjunct2, THEN conjunct2, THEN conjunct2, THEN conjunct1, THEN mp, OF h3])
  have h4: "getProp (exampleCardJsonStats exampleOtherStats) (js ''stats'') = Some (JObj exampleOtherStats) \<and>
      js ''sense'' \<in> set statKeys \<and>
      getProp (JObj exampleOtherStats) (js ''sense'') \<in>
        {None, Some (JNum (Fin 0)), Some (JNum (Fin 101)), Some (JNum (Fin (7 / 2)))}"
    unfolding example_other_stats(6) example_card_fields(6) using key by simp
  have c4: "isl (validateCard exampleBuiltins (exampleCardJsonStats exampleOtherStats))"
    by (rule card_accepted_iff_coerced_stats [where B = exampleBuiltins and raw = "exampleCardJsonStats exampleOtherStats"
        and st = "JObj exampleOtherStats" and key = "js ''sense''",
        THEN conjunct2, THEN conjunct2, THEN conjunct2, THEN conjunct2, THEN conjunct1, THEN mp, OF h4])
  have nk: "\<not> (\<exists>k. Fin 0 = Fin (of_int k) \<and> 1 \<le> k \<and> k \<le> 100)" by simp
  have h5: "getProp (?c (JBool False)) (js ''stats'') = Some (?s (JBool False)) \<and>
      js ''sense'' \<in> set statKeys \<and>
      toNumber exampleBuiltins (getProp (?s (JBool False)) (js ''sense'')) = Inr (Fin 0) \<and>
      \<not> (\<exists>k. Fin 0 = Fin (of_int k) \<and> 1 \<le> k \<and> k \<le> 100)"
    unfolding g st using key nk by simp
  have c5: "isl (validateCard exampleBuiltins (?c (JBool False)))"
    by (rule card_accepted_iff_coerced_stats [where B = exampleBuiltins and raw = "?c (JBool False)"
        and st = "?s (JBool False)" and key = "js ''sense''" and n = "Fin 0",
        THEN conjunct2, THEN conjunct2, THEN conjunct2, THEN conjunct1, THEN mp, OF h5, THEN conjunct2])
  have nn: "\<not> (\<exists>k. NaN = Fin (of_int k) \<and> 1 \<le> k \<and> k \<le> 100)" by simp
  have hi: "js ''high'' \<noteq> js ''50''" by (simp add: js_def)
  have h6: "getProp (?c (JStr (js ''high''))) (js ''stats'') = Some (?s (JStr (js ''high''))) \<and>
      js ''sense'' \<in> set statKeys \<and>
      toNumber exampleBuiltins (getProp (?s (JStr (js ''high''))) (js ''sense'')) = Inr NaN \<and>
      \<not> (\<exists>k. NaN = Fin (of_int k) \<and> 1 \<le> k \<and> k \<le> 100)"
    unfolding g st using key nn hi by (simp add: exampleBuiltins_def)
  have c6: "isl (validateCard exampleBuiltins (?c (JStr (js ''high''))))"
    by (rule card_accepted_iff_coerced_stats [where B = exampleBuiltins and raw = "?c (JStr (js ''high''))"
        and st = "?s (JStr (js ''high''))" and key = "js ''sense''" and n = NaN,
        THEN conjunct2, THEN conjunct2, THEN conjunct2, THEN conjunct1, THEN mp, OF h6,
        THEN conjunct2])
  have a: "\<And>v k. toNumber exampleBuiltins (Some v) = Inr (Fin (of_int k)) \<Longrightarrow> 1 \<le> k \<Longrightarrow> k \<le> 100 \<Longrightarrow>
      isObjectValue (Some (?c v)) \<and>
      clampText exampleBuiltins (getProp (?c v) (js ''name'')) 12 = Inr (js ''Nova'') \<and>
      clampText exampleBuiltins (getProp (?c v) (js ''class'')) 15 = Inr (js ''Echo Rider'') \<and>
      clampText exampleBuiltins (getProp (?c v) (js ''skill'')) 20 = Inr (js ''Photon Step'') \<and>
      clampText exampleBuiltins (getProp (?c v) (js ''description'')) 60 =
        Inr (js ''Reads the room and moves first.'') \<and>
      js ''Nova'' \<noteq> [] \<and> js ''Echo Rider'' \<noteq> [] \<and> js ''Photon Step'' \<noteq> [] \<and>
      js ''Reads the room and moves first.'' \<noteq> [] \<and>
      getProp (?c v) (js ''stats'') = Some (?s v) \<and> isObjectValue (Some (?s v)) \<and>
      toNumber exampleBuiltins (getProp (?s v) (js ''sense'')) = Inr (Fin (of_int k)) \<and>
      toNumber exampleBuiltins (getProp (?s v) (js ''logic'')) = Inr (Fin (of_int 72)) \<and>
      toNumber exampleBuiltins (getProp (?s v) (js ''luck'')) = Inr (Fin (of_int 40)) \<and>
      toNumber exampleBuiltins (getProp (?s v) (js ''charm'')) = Inr (Fin (of_int 65)) \<and>
      toNumber exampleBuiltins (getProp (?s v) (js ''vibe'')) = Inr (Fin (of_int 91)) \<and>
      (\<forall>j\<in>set [k, 72, 40, 65, 91]. 1 \<le> j \<and> j \<le> 100)"
    unfolding example_other_stats(1-5) example_card_fields(2-6)
    using example_card_fields(8-11) example_card_fields(1,7) by simp
  have r: "\<And>v k. toNumber exampleBuiltins (Some v) = Inr (Fin (of_int k)) \<Longrightarrow> 1 \<le> k \<Longrightarrow> k \<le> 100 \<Longrightarrow>
      validateCard exampleBuiltins (?c v) =
        Inr (exampleCard\<lparr>stats := (stats exampleCard)\<lparr>sense := Fin (of_int k)\<rparr>\<rparr>)"
  proof -
    fix v and k :: int
    assume "toNumber exampleBuiltins (Some v) = Inr (Fin (of_int k))" "1 \<le> k" "k \<le> 100"
    then have "validateCard exampleBuiltins (?c v) = Inr \<lparr>name = js ''Nova'', klass = js ''Echo Rider'',
        stats = \<lparr>sense = Fin (of_int k), logic = Fin (of_int 72), luck = Fin (of_int 40),
                 charm = Fin (of_int 65), vibe = Fin (of_int 91)\<rparr>,
        skill = js ''Photon Step'', description = js ''Reads the room and moves first.''\<rparr>"
      by (rule card_accepted_iff_coerced_stats [where B = exampleBuiltins and raw = "?c v" and st = "?s v",
        THEN conjunct2, THEN conjunct2, THEN conjunct2, THEN conjunct2, THEN conjunct2,
          THEN conjunct1, THEN mp, OF a])
    then show "validateCard exampleBuiltins (?c v) =
        Inr (exampleCard\<lparr>stats := (stats exampleCard)\<lparr>sense := Fin (of_int k)\<rparr>\<rparr>)"
      by (simp add: exampleCard_def)
  qed
  have c7: "validateCard exampleBuiltins (?c (JNum (Fin 80))) = Inr exampleCard"
    using r [of "JNum (Fin 80)" 80] by (simp add: exampleCard_def)
  have c8: "validateCard exampleBuiltins (?c (JBool True)) =
      Inr (exampleCard\<lparr>stats := (stats exampleCard)\<lparr>sense := Fin 1\<rparr>\<rparr>)"
    using r [of "JBool True" 1] by simp
  have c9: "validateCard exampleBuiltins (?c (JStr (js ''50''))) =
      Inr (exampleCard\<lparr>stats := (stats exampleCard)\<lparr>sense := Fin 50\<rparr>\<rparr>)"
    using r [of "JStr (js ''50'')" 50] by (simp add: exampleBuiltins_def)
  have c10: "normalizeCardData exampleBuiltins (?c (JNum (Fin 80))) = Inr (Some exampleCard)"
    using c7 unfolding card_accepted_iff_coerced_stats [where B = exampleBuiltins, THEN conjunct2, THEN conjunct1] .
  have c11: "\<exists>k. sense (stats exampleCard) = Fin (of_int k) \<and> 1 \<le> k \<and> k \<le> 100"
    by (rule exI [of _ 80]) (simp add: exampleCard_def)
  show ?thesis
    using c1 c2 c3 c4 c5 c6 c7 c8 c9 c10 c11 by blast
qed

section \<open>Acceptance of a generated question set\<close>


























section \<open>Submission of the answers\<close>







lemma submitAnswers_found:
  assumes "map_of store tok = Some session"
    and "now - sessionCreatedAt session \<le> INPUT_SESSION_TTL_MS cfg"
  shows "submitAnswers B cfg now now2 tok body store =
    (if truthyTime (answeredAt session) then (AlreadyUsed, store)
     else (case normalizeInputAnswers B session body of
             Inl e \<Rightarrow> (ServerError e, store)
           | Inr None \<Rightarrow> (InvalidInput, store)
           | Inr (Some (nm, answers)) \<Rightarrow>
               (let kws = answerKeywords B session nm answers
                in if length kws = 0 then (InvalidInput, store)
                   else (AnswersOk,
                         AList.update tok
                           (session\<lparr>answeredAt := Some now2, sessionKeywords := Some kws\<rparr>)
                           store))))"
  using assms by (simp add: submitAnswers_def getInputSession_def)








lemma example_session_fields:
  "questions (exampleSession tok c t) =
     [\<lparr>qid = Fin 1, qtext = js ''Tea or coffee?''\<rparr>, \<lparr>qid = Fin 2, qtext = js ''Stairs or lift?''\<rparr>]"
  "sessionId (exampleSession tok c t) = js ''batch''"
  "sessionCreatedAt (exampleSession tok c t) = c"
  "answeredAt (exampleSession tok c t) = t"
  by (simp_all add: exampleSession_def)


lemma example_answer_texts:
  "clampText B (Some (JStr (js ''Ada''))) 12 = Inr (js ''Ada'')"
  "clampText B (Some (JStr (js ''Tea''))) 200 = Inr (js ''Tea'')"
  "clampText B (Some (JStr (js ''Lift''))) 200 = Inr (js ''Lift'')"
  "clampText B (Some (JStr (js ''  ''))) n = Inr []"
  "js ''Ada'' \<noteq> []" "js ''Tea'' \<noteq> []" "js ''Lift'' \<noteq> []"
proof -
  have t: "trim (js ''Ada'') = js ''Ada''" "trim (js ''Tea'') = js ''Tea''"
    "trim (js ''Lift'') = js ''Lift''"
    by (rule trim_id; simp add: js_def isWhiteSpace_def)+
  have e: "trim (js ''  '') = []" by (simp add: trim_def js_def isWhiteSpace_def)
  have l: "length (js ''Ada'') \<le> 12" "length (js ''Tea'') \<le> 200" "length (js ''Lift'') \<le> 200"
    by (simp_all add: js_def)
  show "clampText B (Some (JStr (js ''Ada''))) 12 = Inr (js ''Ada'')"
    "clampText B (Some (JStr (js ''Tea''))) 200 = Inr (js ''Tea'')"
    "clampText B (Some (JStr (js ''Lift''))) 200 = Inr (js ''Lift'')"
    using l by (simp_all add: clampText_string t)
  show "clampText B (Some (JStr (js ''  ''))) n = Inr []"
    by (simp add: clampText_string e)
  show "js ''Ada'' \<noteq> []" "js ''Tea'' \<noteq> []" "js ''Lift'' \<noteq> []"
    by (simp_all add: js_def)
qed





text \<open>
  The handler has no \<^verbatim>\<open>try\<close>: when the conversion of an answer to a string throws, as it
  does for an object with a property \<^verbatim>\<open>toString\<close>, the request ends with the server error
  of the framework, also when the answer to a later question is empty. The session is
  left as it was.
\<close>

lemma answer_conversion_throws:
  "submitAnswers exampleBuiltins defaultConfig 1000 1001 (js ''tok'')
     (Some (JObj [(js ''name'', JStr (js ''Ada'')),
        (js ''answers'', JObj [(js ''1'', JObj [(js ''toString'', JNum (Fin 1))]),
                               (js ''2'', JStr [])])]))
     [(js ''tok'', exampleSession ''tok'' 0 None)] =
   (ServerError typeError, [(js ''tok'', exampleSession ''tok'' 0 None)])"
proof -
  let ?s = "exampleSession ''tok'' 0 None"
  let ?raw = "JObj [(js ''1'', JObj [(js ''toString'', JNum (Fin 1))]), (js ''2'', JStr [])]"
  let ?p = "JObj [(js ''name'', JStr (js ''Ada'')), (js ''answers'', ?raw)]"
  have k: "js ''answers'' \<noteq> js ''name''" by (simp add: js_def)
  have f: "map_of [(js ''tok'', ?s)] (js ''tok'') = Some ?s"
    "1000 - sessionCreatedAt ?s \<le> INPUT_SESSION_TTL_MS defaultConfig"
    by (simp_all add: example_session_fields defaultConfig_def)
  have u: "\<not> truthyTime (answeredAt ?s)" by (simp add: example_session_fields)
  have o: "isObjectValue (Some ?p)" "isObjectValue (Some ?raw)" by (simp_all add: isObjectValue_def)
  have nm: "clampText exampleBuiltins (getProp ?p (js ''name'')) 12 = Inr (js ''Ada'')"
    using example_answer_texts(1) by simp
  have raw: "getProp ?p (js ''answers'') = Some ?raw" using k by simp
  have g: "getIndexed exampleBuiltins ?raw (Fin 1) = Some (JObj [(js ''toString'', JNum (Fin 1))])"
    by (simp add: exampleBuiltins_def)
  have t: "clampText exampleBuiltins (getIndexed exampleBuiltins ?raw (Fin 1)) 200 = Inl typeError"
    unfolding g by (simp add: clampText_def bindE_Inl)
  have l: "answersLoop exampleBuiltins ?raw (questions ?s) [] = Inl typeError"
    unfolding example_session_fields using t by (simp del: getIndexed.simps)
  have n: "normalizeInputAnswers exampleBuiltins ?s (Some ?p) = Inl typeError"
    using o nm raw l example_answer_texts(5)
    by (simp add: normalizeInputAnswers_def bindE_Inr bindE_Inl del: getProp.simps)
  show ?thesis
    unfolding submitAnswers_found [OF f] n using u by simp
qed

end
